theory Spec2Isabelle
  imports Main "HOL-Library.Word" "HOL-Library.Char_ord" "HOL-Library.List_Lexorder"
begin

unbundle bit_operations_syntax

section \<open>Go runtime values: byte slices, panics, errors\<close>

type_synonym byte = "8 word"

text \<open>
  A Go byte slice is a window on a backing array: \<open>elems\<close> are the \<open>len\<close> visible bytes,
  \<open>spare\<close> the bytes of the backing array between \<open>len\<close> and \<open>cap\<close>. Slice expressions
  are checked against the capacity, index expressions against the length.
\<close>

datatype goslice = Slice (elems: "byte list") (spare: "byte list")

definition len :: "goslice \<Rightarrow> nat" where
  "len s = length (elems s)"

definition cap :: "goslice \<Rightarrow> nat" where
  "cap s = length (elems s) + length (spare s)"

definition nil_slice :: goslice where
  "nil_slice = Slice [] []"

datatype panic =
    SliceBoundsOutOfRange int int nat
  | IndexOutOfRange nat nat
  | NilPointerDereference

datatype 'a exec = Panic panic | Return 'a

definition bindE :: "'a exec \<Rightarrow> ('a \<Rightarrow> 'b exec) \<Rightarrow> 'b exec" where
  "bindE m f = (case m of Panic p \<Rightarrow> Panic p | Return x \<Rightarrow> f x)"

text \<open>\<open>s[lo:hi]\<close>: panics unless \<open>0 \<le> lo \<le> hi \<le> cap(s)\<close>.\<close>

definition sliceLH :: "goslice \<Rightarrow> int \<Rightarrow> int \<Rightarrow> goslice exec" where
  "sliceLH s lo hi =
     (if 0 \<le> lo \<and> lo \<le> hi \<and> hi \<le> int (cap s)
      then Return (Slice (take (nat hi - nat lo) (drop (nat lo) (elems s @ spare s)))
                         (drop (nat hi) (elems s @ spare s)))
      else Panic (SliceBoundsOutOfRange lo hi (cap s)))"

text \<open>\<open>s[lo:]\<close>: the upper bound defaults to \<open>len(s)\<close>, so it panics unless \<open>lo \<le> len(s)\<close>.\<close>

definition sliceL :: "goslice \<Rightarrow> int \<Rightarrow> goslice exec" where
  "sliceL s lo =
     (if 0 \<le> lo \<and> lo \<le> int (len s)
      then Return (Slice (drop (nat lo) (elems s)) (spare s))
      else Panic (SliceBoundsOutOfRange lo (int (len s)) (cap s)))"

datatype clientState = clientStateIdle | clientStateActive

datatype websocketClientState =
    websocketClientStateIdle
  | websocketClientStateAuth
  | websocketClientStateActive

text \<open>
  The errors of the package, one constructor per \<open>fmt.Errorf\<close> format string (or error
  type), carrying the values the format prints. \<open>Wrap msg e\<close> is
  \<open>fmt.Errorf(msg + ": %w", e)\<close>; \<open>External\<close> is an error made outside the package
  (transport, JSON decoder, HTTP client).
\<close>

datatype error =
    InvalidPackSize int
  | BufferSmallerThanPacket nat int
  | UnsupportedHeaderSize int
  | InvalidBodySize int
  | External string
  | Wrap string error
  | WsStateNotIdle
  | UnexpectedState websocketClientState
  | AuthCodeNotZero int
  | ClientStateNotIdle
  | ClientStateNotAlive
  | CommonError int string string

section \<open>encoding/binary, big endian\<close>

definition BigEndian_Uint32 :: "goslice \<Rightarrow> 32 word exec" where
  "BigEndian_Uint32 b =
     (if len b \<le> 3 then Panic (IndexOutOfRange 3 (len b))
      else Return (ucast (elems b ! 3) OR push_bit 8 (ucast (elems b ! 2))
                   OR push_bit 16 (ucast (elems b ! 1)) OR push_bit 24 (ucast (elems b ! 0))))"

definition BigEndian_Uint16 :: "goslice \<Rightarrow> 16 word exec" where
  "BigEndian_Uint16 b =
     (if len b \<le> 1 then Panic (IndexOutOfRange 1 (len b))
      else Return (ucast (elems b ! 1) OR push_bit 8 (ucast (elems b ! 0))))"

definition BigEndian_PutUint32 :: "32 word \<Rightarrow> byte list" where
  "BigEndian_PutUint32 v =
     [ucast (drop_bit 24 v), ucast (drop_bit 16 v), ucast (drop_bit 8 v), ucast v]"

definition BigEndian_PutUint16 :: "16 word \<Rightarrow> byte list" where
  "BigEndian_PutUint16 v = [ucast (drop_bit 8 v), ucast v]"

text \<open>The values \<open>writeWsProtoMsg\<close> hands to \<open>binary.Write\<close>.\<close>

datatype datum = I32 "32 word" | I16 "16 word" | Bytes goslice

fun datumBytes :: "datum \<Rightarrow> byte list" where
  "datumBytes (I32 v) = BigEndian_PutUint32 v"
| "datumBytes (I16 v) = BigEndian_PutUint16 v"
| "datumBytes (Bytes s) = elems s"

text \<open>
  An \<open>io.Writer\<close> is a state \<open>'w\<close> with its \<open>Write\<close> method; \<open>binary.Write\<close> encodes the
  datum and makes one \<open>Write\<close> call with the bytes.
\<close>

type_synonym 'w Writer = "'w \<Rightarrow> byte list \<Rightarrow> error option \<times> 'w"

definition binary_Write :: "'w Writer \<Rightarrow> 'w \<Rightarrow> datum \<Rightarrow> error option \<times> 'w" where
  "binary_Write wr w d = wr w (datumBytes d)"

text \<open>A \<open>bytes.Buffer\<close>: every write appends and succeeds.\<close>

definition Buffer_Write :: "(byte list) Writer" where
  "Buffer_Write w bs = (None, w @ bs)"

section \<open>The frame codec\<close>

definition wsProtoMaxBodySize :: "32 word" where
  "wsProtoMaxBodySize = push_bit 11 1"

definition wsProtoPackSize :: int where "wsProtoPackSize = 4"
definition wsProtoHeaderSize :: int where "wsProtoHeaderSize = 2"
definition wsProtoVerSize :: int where "wsProtoVerSize = 2"
definition wsProtoOperationSize :: int where "wsProtoOperationSize = 4"
definition wsProtoSeqIdSize :: int where "wsProtoSeqIdSize = 4"

definition wsProtoRawHeaderSize :: int where
  "wsProtoRawHeaderSize =
     wsProtoPackSize + wsProtoHeaderSize + wsProtoVerSize + wsProtoOperationSize + wsProtoSeqIdSize"

definition wsProtoMaxPackSize :: "32 word" where
  "wsProtoMaxPackSize = wsProtoMaxBodySize + word_of_int wsProtoRawHeaderSize"

definition wsProtoPackOffset :: int where "wsProtoPackOffset = 0"
definition wsProtoHeaderOffset :: int where
  "wsProtoHeaderOffset = wsProtoPackOffset + wsProtoPackSize"
definition wsProtoVerOffset :: int where
  "wsProtoVerOffset = wsProtoHeaderOffset + wsProtoHeaderSize"
definition wsProtoOperationOffset :: int where
  "wsProtoOperationOffset = wsProtoVerOffset + wsProtoVerSize"
definition wsProtoSeqIdOffset :: int where
  "wsProtoSeqIdOffset = wsProtoOperationOffset + wsProtoOperationSize"

type_synonym wsProtoOp = "32 word"

definition wsProtoOpHeartbeat :: wsProtoOp where "wsProtoOpHeartbeat = 2"
definition wsProtoOpHeartbeatReply :: wsProtoOp where "wsProtoOpHeartbeatReply = 3"
definition wsProtoOpSendMsgReply :: wsProtoOp where "wsProtoOpSendMsgReply = 5"
definition wsProtoOpAuth :: wsProtoOp where "wsProtoOpAuth = 7"
definition wsProtoOpAuthReply :: wsProtoOp where "wsProtoOpAuthReply = 8"

record wsProtoMsg =
  Version :: "16 word"
  Operation :: wsProtoOp
  SequenceID :: "32 word"
  Body :: goslice

text \<open>The loop over \<open>data\<close>: stop at the first failing write.\<close>

fun writeAll :: "'w Writer \<Rightarrow> 'w \<Rightarrow> datum list \<Rightarrow> error option \<times> 'w" where
  "writeAll wr w [] = (None, w)"
| "writeAll wr w (d # ds) =
     (case binary_Write wr w d of
        (Some e, w') \<Rightarrow> (Some e, w')
      | (None, w') \<Rightarrow> writeAll wr w' ds)"

text \<open>\<open>int32(wsProtoRawHeaderSize + len(p.Body))\<close> truncates the \<open>int\<close> sum to 32 bits.\<close>

definition writeWsProtoMsg :: "'w Writer \<Rightarrow> 'w \<Rightarrow> wsProtoMsg \<Rightarrow> error option \<times> 'w" where
  "writeWsProtoMsg wr w p =
     (let packSize = (word_of_int (wsProtoRawHeaderSize + int (len (Body p))) :: 32 word);
          data = [I32 packSize,
                  I16 (word_of_int wsProtoRawHeaderSize),
                  I16 (Version p),
                  I32 (Operation p),
                  I32 (SequenceID p),
                  Bytes (Body p)]
      in writeAll wr w data)"

text \<open>
  The function returns the pair \<open>(p, err)\<close>; \<open>p\<close> is allocated first and carries the header
  fields also when \<open>err\<close> is set. Every slice and index expression can panic.
\<close>

definition parseWsProtoMsg :: "goslice \<Rightarrow> (wsProtoMsg \<times> error option) exec" where
  "parseWsProtoMsg buf =
     bindE (sliceLH buf wsProtoPackOffset wsProtoHeaderOffset) (\<lambda>s0.
     bindE (BigEndian_Uint32 s0) (\<lambda>packSize.
     bindE (sliceLH buf wsProtoHeaderOffset wsProtoVerOffset) (\<lambda>s1.
     bindE (BigEndian_Uint16 s1) (\<lambda>headerLength.
     bindE (sliceLH buf wsProtoVerOffset wsProtoOperationOffset) (\<lambda>s2.
     bindE (BigEndian_Uint16 s2) (\<lambda>ver.
     bindE (sliceLH buf wsProtoOperationOffset wsProtoSeqIdOffset) (\<lambda>s3.
     bindE (BigEndian_Uint32 s3) (\<lambda>op.
     bindE (sliceL buf wsProtoSeqIdOffset) (\<lambda>s4.
     bindE (BigEndian_Uint32 s4) (\<lambda>seq.
       let p = \<lparr>Version = ver, Operation = op, SequenceID = seq, Body = nil_slice\<rparr> in
       if packSize <s 0 \<or> wsProtoMaxPackSize <s packSize
       then Return (p, Some (InvalidPackSize (sint packSize)))
       else if int (len buf) < sint packSize
       then Return (p, Some (BufferSmallerThanPacket (len buf) (sint packSize)))
       else if headerLength \<noteq> word_of_int wsProtoRawHeaderSize
       then Return (p, Some (UnsupportedHeaderSize (sint headerLength)))
       else
         let bodySize = sint (packSize - scast headerLength) in
         if bodySize \<le> 0
         then Return (p, Some (InvalidBodySize bodySize))
         else bindE (sliceLH buf (sint headerLength) (sint packSize)) (\<lambda>body.
              Return (p\<lparr>Body := body\<rparr>, None))))))))))))"

section \<open>Application events and the JSON decoder\<close>

type_synonym DanmakuType = int

record Danmaku =
  Timestamp :: int
  RoomID :: int
  UID :: int
  Username :: string
  UserFace :: string
  Admin :: int
  Vip :: int
  SVip :: int
  MsgType :: int
  DMType :: DanmakuType
  Message :: string
  MessageID :: string
  EmojiImgUrl :: string
  FansMedalLevel :: int
  FansMedalName :: string
  FansMedalWearingStatus :: bool

definition CmdLiveOpenPlatformDm :: string where
  "CmdLiveOpenPlatformDm = ''LIVE_OPEN_PLATFORM_DM''"

text \<open>
  The JSON library (json-iterator) is not part of the package; the three ways the handlers
  call it are parameters:
  \<^item> \<open>UnmarshalAuth body\<close>: \<open>jsoniter.Unmarshal(body, &rsp)\<close> for a \<open>wsAuthResponse\<close>, the
    error or the decoded \<open>Code\<close> (an \<open>int64\<close>);
  \<^item> \<open>GetCmd body\<close>: \<open>jsoniter.Get(body, "cmd").ToString()\<close>;
  \<^item> \<open>GetData body\<close>: \<open>jsoniter.Get(body, "data")\<close> followed by \<open>ToVal(&dm)\<close>, the
    \<open>LastError\<close> or the decoded event.
\<close>

record jsonDecoder =
  UnmarshalAuth :: "byte list \<Rightarrow> error + 64 word"
  GetCmd :: "byte list \<Rightarrow> string"
  GetData :: "byte list \<Rightarrow> error + Danmaku"

section \<open>The streaming connection\<close>

datatype logLevel = DebugLevel | InfoLevel | WarnLevel | ErrorLevel

text \<open>
  What a connection does to the outside, in order: log lines (level, message, the
  \<open>zap.Error\<close> field), calls on the transport, the goroutines it starts, the cancelling
  of the loop context and stopping of the ticker, and the calls of the registered
  callbacks.
\<close>

datatype effect =
    Log logLevel string "error option"
  | Dial string "error option"
  | GoReadLoop
  | GoEventLoop
  | WriteMsg wsProtoMsg "error option"
  | ConnClose "error option"
  | LoopCancel
  | TickerStop
  | CallOnClose "error option"
  | CallOnDanmaku Danmaku

text \<open>
  The websocket library, as the connection sees it. Each result may depend on everything
  done so far (the trace): \<open>dialResult\<close> is the error of \<open>websocket.Dial\<close>,
  \<open>connWriter\<close> the writer or error of \<open>conn.Writer\<close>, \<open>connWrite\<close> that writer's
  \<open>Write\<close>, \<open>connClose\<close> the error of \<open>conn.Close\<close>.
\<close>

record 'w transport =
  dialResult :: "string \<Rightarrow> effect list \<Rightarrow> error option"
  connWriter :: "effect list \<Rightarrow> error + 'w"
  connWrite :: "'w Writer"
  connClose :: "effect list \<Rightarrow> error option"

datatype handler = HandleOpAuth | HandleOpHeartbeat | HandleOpMsg

text \<open>
  Pointers, interfaces and function values are kept as: set or \<open>nil\<close>. \<open>conn\<close>,
  \<open>heartbeatTicker\<close>, \<open>loopCtx\<close>, \<open>loopCancel\<close>, \<open>onDanmaku\<close> and \<open>onClose\<close> are \<open>True\<close>
  when not \<open>nil\<close>; calling a callback is an effect in \<open>trace\<close>.
\<close>

record liveWebsocketClient =
  url :: string
  authBody :: string
  onDanmaku :: bool
  onClose :: bool
  state :: websocketClientState
  conn :: bool
  seqID :: "32 word"
  heartbeatTicker :: bool
  loopCtx :: bool
  loopCancel :: bool
  eventHandler :: "wsProtoOp \<rightharpoonup> handler"
  trace :: "effect list"

definition emit :: "effect \<Rightarrow> liveWebsocketClient \<Rightarrow> liveWebsocketClient" where
  "emit e c = c\<lparr>trace := trace c @ [e]\<rparr>"

text \<open>\<open>[]byte(s)\<close> of a Go string.\<close>

definition bytesOf :: "string \<Rightarrow> goslice" where
  "bytesOf s = Slice (map of_char s) []"

definition createMsg ::
  "wsProtoOp \<Rightarrow> goslice \<Rightarrow> liveWebsocketClient \<Rightarrow> wsProtoMsg \<times> liveWebsocketClient" where
  "createMsg op body c =
     (\<lparr>Version = 0, Operation = op, SequenceID = seqID c, Body = body\<rparr>,
      c\<lparr>seqID := seqID c + 1\<rparr>)"

text \<open>
  \<open>c.conn.Writer\<close> on a \<open>nil\<close> connection dereferences it. The writer's \<open>Close\<close> is
  deferred and its error dropped.
\<close>

definition writeMsg ::
  "'w transport \<Rightarrow> wsProtoMsg \<Rightarrow> liveWebsocketClient
     \<Rightarrow> (error option \<times> liveWebsocketClient) exec" where
  "writeMsg T msg c =
     (if \<not> conn c then Panic NilPointerDereference
      else case connWriter T (trace c) of
        Inl e \<Rightarrow>
          Return (Some (Wrap ''open writer fail'' e),
                  emit (WriteMsg msg (Some (Wrap ''open writer fail'' e))) c)
      | Inr w \<Rightarrow>
          (let r = fst (writeWsProtoMsg (connWrite T) w msg)
           in Return (r, emit (WriteMsg msg r) c)))"

definition sendHeartbeat ::
  "'w transport \<Rightarrow> liveWebsocketClient \<Rightarrow> (error option \<times> liveWebsocketClient) exec" where
  "sendHeartbeat T c =
     (if state c \<noteq> websocketClientStateActive then Return (None, c)
      else case createMsg wsProtoOpHeartbeat nil_slice c of
             (msg, c') \<Rightarrow> writeMsg T msg c')"

definition sendAuth ::
  "'w transport \<Rightarrow> liveWebsocketClient \<Rightarrow> (error option \<times> liveWebsocketClient) exec" where
  "sendAuth T c =
     (if state c \<noteq> websocketClientStateAuth then Return (None, c)
      else case createMsg wsProtoOpAuth (bytesOf (authBody c)) c of
             (msg, c') \<Rightarrow> writeMsg T msg c')"

definition handleOpAuth ::
  "jsonDecoder \<Rightarrow> wsProtoMsg \<Rightarrow> liveWebsocketClient \<Rightarrow> error option \<times> liveWebsocketClient" where
  "handleOpAuth J msg c =
     (if state c \<noteq> websocketClientStateAuth then (Some (UnexpectedState (state c)), c)
      else case UnmarshalAuth J (elems (Body msg)) of
        Inl e \<Rightarrow> (Some (Wrap ''unmarshal auth response fail'' e), c)
      | Inr code \<Rightarrow>
          if code \<noteq> 0 then (Some (AuthCodeNotZero (sint code)), c)
          else (None, emit (Log InfoLevel ''client finish auth'' None)
                        (c\<lparr>state := websocketClientStateActive\<rparr>)))"

definition handleOpHeartbeat ::
  "wsProtoMsg \<Rightarrow> liveWebsocketClient \<Rightarrow> error option \<times> liveWebsocketClient" where
  "handleOpHeartbeat msg c = (None, emit (Log InfoLevel ''op heartbeat'' None) c)"

definition handleOpMsg ::
  "jsonDecoder \<Rightarrow> wsProtoMsg \<Rightarrow> liveWebsocketClient \<Rightarrow> error option \<times> liveWebsocketClient" where
  "handleOpMsg J msg c =
     (let cmd = GetCmd J (elems (Body msg)) in
      if cmd = CmdLiveOpenPlatformDm
      then case GetData J (elems (Body msg)) of
             Inl e \<Rightarrow> (Some (Wrap ''unmarshal danmaku fail'' e), c)
           | Inr dm \<Rightarrow> (None, if onDanmaku c then emit (CallOnDanmaku dm) c else c)
      else (None, emit (Log WarnLevel ''unsupported cmd'' None) c))"

fun runHandler ::
  "jsonDecoder \<Rightarrow> handler \<Rightarrow> wsProtoMsg \<Rightarrow> liveWebsocketClient
     \<Rightarrow> error option \<times> liveWebsocketClient" where
  "runHandler J HandleOpAuth msg c = handleOpAuth J msg c"
| "runHandler J HandleOpHeartbeat msg c = handleOpHeartbeat msg c"
| "runHandler J HandleOpMsg msg c = handleOpMsg J msg c"

text \<open>
  A call that may call the close callback either finishes with its results, or is stuck
  inside the callback for ever, leaving the connection in the state given. Whether a
  call of the callback returns is not the connection's to decide: \<open>cbReturns\<close> says so.
  The one function ever stored in \<open>onClose\<close> is the facade's \<open>onWsClose\<close>, which begins
  with \<open>Disconnect\<close>, which begins with \<open>c.mu.Lock()\<close>: it does not return while the
  mutex is held by a goroutine that waits for this very call.
\<close>

datatype 'a call = Stuck liveWebsocketClient | Finished 'a

definition internalClose ::
  "bool \<Rightarrow> error option \<Rightarrow> liveWebsocketClient \<Rightarrow> liveWebsocketClient call" where
  "internalClose cbReturns err c =
     (let c1 = (if loopCancel c then (emit LoopCancel c)\<lparr>loopCancel := False\<rparr> else c);
          c2 = (if heartbeatTicker c1 then (emit TickerStop c1)\<lparr>heartbeatTicker := False\<rparr>
                else c1);
          c3 = c2\<lparr>state := websocketClientStateIdle, conn := False\<rparr>
      in if onClose c3
         then (if cbReturns then Finished (emit (CallOnClose err) c3)
               else Stuck (emit (CallOnClose err) c3))
         else Finished c3)"

text \<open>
  \<open>Close\<close>: the deferred \<open>internalClose(nil)\<close> runs after \<open>conn.Close\<close> has returned,
  whatever its error. This is the caller's goroutine alone, as when the read loop takes
  no step before \<open>Close\<close> is over; \<open>CloseDuringRead\<close> below adds the read loop's steps.
\<close>

definition Close ::
  "'w transport \<Rightarrow> bool \<Rightarrow> liveWebsocketClient
     \<Rightarrow> (error option \<times> liveWebsocketClient) call" where
  "Close T cbReturns c =
     (if \<not> conn c then Finished (None, c)
      else let err = connClose T (trace c)
           in case internalClose cbReturns None (emit (ConnClose err) c) of
                Stuck c' \<Rightarrow> Stuck c'
              | Finished c' \<Rightarrow> Finished (err, c'))"

text \<open>
  The read loop, started by \<open>connect\<close> on its own goroutine. What \<open>conn.Read\<close> gives is
  an input: an error with a close status, another error, or a message. \<open>afterRead\<close> is the
  loop body from the return of \<open>conn.Read\<close> on; \<open>readTurn\<close> is the whole body, with the
  test of \<open>c.conn\<close> that comes before the read. A turn ends with the loop waiting in its
  next read, exited, or stuck in the close callback, and may hand a frame to the channel.
\<close>

datatype readResult = ReadClosed error | ReadFailed error | ReadFrame goslice

datatype readStatus = ReadWaiting | ReadExited | ReadStuck

definition afterRead ::
  "bool \<Rightarrow> readResult \<Rightarrow> liveWebsocketClient
     \<Rightarrow> (readStatus \<times> wsProtoMsg option \<times> liveWebsocketClient) exec" where
  "afterRead cbReturns rr c =
     (case rr of
        ReadClosed e \<Rightarrow>
          (case internalClose cbReturns (Some e)
                  (emit (Log InfoLevel ''connection receive close message'' (Some e)) c) of
             Stuck c' \<Rightarrow> Return (ReadStuck, None, c')
           | Finished c' \<Rightarrow> Return (ReadExited, None, c'))
      | ReadFailed e \<Rightarrow>
          Return (ReadWaiting, None,
                  emit (Log WarnLevel ''failed to read message from conn'' (Some e)) c)
      | ReadFrame buf \<Rightarrow>
          (case parseWsProtoMsg buf of
             Panic p \<Rightarrow> Panic p
           | Return (msg, Some e) \<Rightarrow>
               Return (ReadWaiting, None,
                       emit (Log WarnLevel ''failed to parse message'' (Some e)) c)
           | Return (msg, None) \<Rightarrow>
               Return (ReadWaiting, Some msg, emit (Log DebugLevel ''recv msg'' None) c)))"

definition readTurn ::
  "bool \<Rightarrow> readResult \<Rightarrow> liveWebsocketClient
     \<Rightarrow> (readStatus \<times> wsProtoMsg option \<times> liveWebsocketClient) exec" where
  "readTurn cbReturns rr c =
     (if \<not> conn c
      then Return (ReadExited, None,
                   emit (Log InfoLevel ''connection is closed. exit read loop'' None) c)
      else afterRead cbReturns rr c)"

fun readLoop ::
  "bool \<Rightarrow> readResult list \<Rightarrow> liveWebsocketClient
     \<Rightarrow> (readStatus \<times> wsProtoMsg list \<times> liveWebsocketClient) exec" where
  "readLoop cbReturns [] c =
     (if \<not> conn c
      then Return (ReadExited, [],
                   emit (Log InfoLevel ''connection is closed. exit read loop'' None) c)
      else Return (ReadWaiting, [], c))"
| "readLoop cbReturns (rr # rrs) c =
     (case readTurn cbReturns rr c of
        Panic p \<Rightarrow> Panic p
      | Return (ReadWaiting, mo, c') \<Rightarrow>
          (case readLoop cbReturns rrs c' of
             Panic p \<Rightarrow> Panic p
           | Return (st, ms, c'') \<Rightarrow>
               Return (st, (case mo of None \<Rightarrow> ms | Some m \<Rightarrow> m # ms), c''))
      | Return (st, mo, c') \<Rightarrow> Return (st, [], c'))"

text \<open>
  A caller-initiated close of a connection whose read loop is waiting in \<open>conn.Read\<close>:
  the pending read is past the test of \<open>c.conn\<close>. The two goroutines take their steps in
  this order: the caller's \<open>conn.Close\<close> returns; the pending read returns \<open>rr\<close> and the
  read loop runs on, through the later reads \<open>rrs\<close> if it does not exit; the caller's
  deferred \<open>internalClose(nil)\<close> runs. The frames the loop hands on meanwhile do not
  matter to the teardown. A panic of the read loop ends the program.
\<close>

definition CloseDuringRead ::
  "'w transport \<Rightarrow> bool \<Rightarrow> readResult \<Rightarrow> readResult list \<Rightarrow> liveWebsocketClient
     \<Rightarrow> (error option \<times> liveWebsocketClient) call exec" where
  "CloseDuringRead T cbReturns rr rrs c =
     (if \<not> conn c then Return (Finished (None, c))
      else let err = connClose T (trace c)
           in case (case afterRead cbReturns rr (emit (ConnClose err) c) of
                      Panic p \<Rightarrow> Panic p
                    | Return (ReadWaiting, mo, c') \<Rightarrow> readLoop cbReturns rrs c'
                    | Return (st, mo, c') \<Rightarrow> Return (st, [], c')) of
                Panic p \<Rightarrow> Panic p
              | Return (st, ms, c') \<Rightarrow>
                  Return (case internalClose cbReturns None c' of
                            Stuck c'' \<Rightarrow> Stuck c''
                          | Finished c'' \<Rightarrow> Finished (err, c'')))"

definition connect ::
  "'w transport \<Rightarrow> liveWebsocketClient \<Rightarrow> (error option \<times> liveWebsocketClient) exec" where
  "connect T c =
     (if state c \<noteq> websocketClientStateIdle then Return (Some WsStateNotIdle, c)
      else case dialResult T (url c) (trace c) of
        Some e \<Rightarrow> Return (Some (Wrap ''dial fail'' e), emit (Dial (url c) (Some e)) c)
      | None \<Rightarrow>
          (let c1 = (emit (Dial (url c) None) c)
                 \<lparr>conn := True,
                  eventHandler := [wsProtoOpAuthReply \<mapsto> HandleOpAuth,
                                   wsProtoOpHeartbeatReply \<mapsto> HandleOpHeartbeat,
                                   wsProtoOpSendMsgReply \<mapsto> HandleOpMsg],
                  seqID := 0,
                  state := websocketClientStateAuth,
                  loopCtx := True,
                  loopCancel := True,
                  heartbeatTicker := True\<rparr>;
               c2 = emit GoEventLoop (emit GoReadLoop c1)
           in case sendAuth T c2 of
                Panic p \<Rightarrow> Panic p
              | Return (Some e, c3) \<Rightarrow> Return (Some (Wrap ''send auth fail'' e), c3)
              | Return (None, c3) \<Rightarrow> Return (None, c3)))"

text \<open>
  One turn of the \<open>select\<close> in \<open>eventLoop\<close>. Entering the \<open>select\<close> evaluates
  \<open>c.loopCtx.Done()\<close> and \<open>c.heartbeatTicker.C\<close>, a method call on the context and a
  dereference of the ticker. The event is the case that fires:
  the cancellation signal, a heartbeat tick, or a frame pointer from the channel. The
  result says whether the loop returns (\<open>True\<close>) or goes round again.
\<close>

datatype event = CtxDone | HeartbeatTick | Recv "wsProtoMsg option"

definition eventTurn ::
  "'w transport \<Rightarrow> jsonDecoder \<Rightarrow> event \<Rightarrow> liveWebsocketClient
     \<Rightarrow> (bool \<times> liveWebsocketClient) exec" where
  "eventTurn T J ev c =
     (if \<not> loopCtx c \<or> \<not> heartbeatTicker c then Panic NilPointerDereference
      else case ev of
        CtxDone \<Rightarrow> Return (True, c)
      | HeartbeatTick \<Rightarrow>
          (case sendHeartbeat T c of
             Panic p \<Rightarrow> Panic p
           | Return (Some e, c') \<Rightarrow>
               Return (False, emit (Log WarnLevel ''heartbeat send fail'' (Some e)) c')
           | Return (None, c') \<Rightarrow> Return (False, c'))
      | Recv None \<Rightarrow> Return (False, c)
      | Recv (Some msg) \<Rightarrow>
          (case eventHandler c (Operation msg) of
             None \<Rightarrow>
               Return (False, emit (Log WarnLevel ''no handlers for this message'' None) c)
           | Some h \<Rightarrow>
               (case runHandler J h msg c of
                  (Some e, c') \<Rightarrow>
                    Return (False, emit (Log WarnLevel ''handle msg fail'' (Some e)) c')
                | (None, c') \<Rightarrow> Return (False, c'))))"

text \<open>
  The loop over the events that arrive. With no event left the loop is blocked in its
  \<open>select\<close> (\<open>Waiting\<close>); it returns (\<open>Exited\<close>) only on the cancellation signal.
\<close>

datatype loopStatus = Waiting | Exited

fun eventLoop ::
  "'w transport \<Rightarrow> jsonDecoder \<Rightarrow> event list \<Rightarrow> liveWebsocketClient
     \<Rightarrow> (loopStatus \<times> liveWebsocketClient) exec" where
  "eventLoop T J [] c =
     (if \<not> loopCtx c \<or> \<not> heartbeatTicker c then Panic NilPointerDereference
      else Return (Waiting, c))"
| "eventLoop T J (ev # evs) c =
     (case eventTurn T J ev c of
        Panic p \<Rightarrow> Panic p
      | Return (True, c') \<Rightarrow> Return (Exited, c')
      | Return (False, c') \<Rightarrow> eventLoop T J evs c')"

text \<open>
  The frames handed to the connection since the last successful dial, in order
  (whether or not the write succeeded).
\<close>

definition frameStep :: "wsProtoMsg list \<Rightarrow> effect \<Rightarrow> wsProtoMsg list" where
  "frameStep acc e =
     (case e of Dial u None \<Rightarrow> [] | WriteMsg m r \<Rightarrow> acc @ [m] | _ \<Rightarrow> acc)"

definition framesSinceDial :: "effect list \<Rightarrow> wsProtoMsg list" where
  "framesSinceDial tr = foldl frameStep [] tr"



definition closeCalls :: "effect list \<Rightarrow> error option list" where
  "closeCalls tr = concat (map (\<lambda>e. case e of CallOnClose r \<Rightarrow> [r] | _ \<Rightarrow> []) tr)"

definition danmakuCalls :: "effect list \<Rightarrow> Danmaku list" where
  "danmakuCalls tr = concat (map (\<lambda>e. case e of CallOnDanmaku d \<Rightarrow> [d] | _ \<Rightarrow> []) tr)"

section \<open>Request signing\<close>

definition HeaderBiliCommPrefix :: string where "HeaderBiliCommPrefix = ''X-Bili-''"
definition HeaderBiliContentMD5 :: string where
  "HeaderBiliContentMD5 = HeaderBiliCommPrefix @ ''Content-MD5''"
definition HeaderBiliTimestamp :: string where
  "HeaderBiliTimestamp = HeaderBiliCommPrefix @ ''Timestamp''"
definition HeaderBiliSignatureMethod :: string where
  "HeaderBiliSignatureMethod = HeaderBiliCommPrefix @ ''Signature-Method''"
definition HeaderBiliSignatureNonce :: string where
  "HeaderBiliSignatureNonce = HeaderBiliCommPrefix @ ''Signature-Nonce''"
definition HeaderBiliAccessKeyId :: string where
  "HeaderBiliAccessKeyId = HeaderBiliCommPrefix @ ''AccessKeyId''"
definition HeaderBiliSignatureVersion :: string where
  "HeaderBiliSignatureVersion = HeaderBiliCommPrefix @ ''Signature-Version''"

definition signatureSourceHeaders :: "string list" where
  "signatureSourceHeaders =
     [HeaderBiliAccessKeyId, HeaderBiliContentMD5, HeaderBiliSignatureMethod,
      HeaderBiliSignatureNonce, HeaderBiliSignatureVersion, HeaderBiliTimestamp]"

text \<open>
  \<open>net/http\<close> headers: a map from the canonical form of a key to its values.
  \<open>CanonicalMIMEHeaderKey\<close> upper-cases the first letter and every letter after a hyphen
  and lower-cases the rest, and leaves a key with a byte outside the token alphabet as
  it is. \<open>strings.ToLower\<close> is given for ASCII, which is all it is applied to.
\<close>

type_synonym Header = "string \<rightharpoonup> string list"

definition isLowerAscii :: "char \<Rightarrow> bool" where
  "isLowerAscii c = (CHR ''a'' \<le> c \<and> c \<le> CHR ''z'')"

definition isUpperAscii :: "char \<Rightarrow> bool" where
  "isUpperAscii c = (CHR ''A'' \<le> c \<and> c \<le> CHR ''Z'')"

definition isDigitAscii :: "char \<Rightarrow> bool" where
  "isDigitAscii c = (CHR ''0'' \<le> c \<and> c \<le> CHR ''9'')"

definition toUpperAscii :: "char \<Rightarrow> char" where
  "toUpperAscii c = (if isLowerAscii c then char_of (of_char c - (32 :: nat)) else c)"

definition toLowerAscii :: "char \<Rightarrow> char" where
  "toLowerAscii c = (if isUpperAscii c then char_of (of_char c + (32 :: nat)) else c)"

definition strings_ToLower :: "string \<Rightarrow> string" where
  "strings_ToLower s = map toLowerAscii s"

definition validHeaderFieldByte :: "char \<Rightarrow> bool" where
  "validHeaderFieldByte c =
     (isLowerAscii c \<or> isUpperAscii c \<or> isDigitAscii c \<or> c \<in> set ''!#$%&*+-.^_`|~''
      \<or> c = CHR 0x27)"

fun canonicalize :: "bool \<Rightarrow> string \<Rightarrow> string" where
  "canonicalize upper [] = []"
| "canonicalize upper (c # cs) =
     (let c' = (if upper \<and> isLowerAscii c then toUpperAscii c
                else if \<not> upper \<and> isUpperAscii c then toLowerAscii c
                else c)
      in c' # canonicalize (c' = CHR ''-'') cs)"

definition CanonicalMIMEHeaderKey :: "string \<Rightarrow> string" where
  "CanonicalMIMEHeaderKey s = (if list_all validHeaderFieldByte s then canonicalize True s else s)"

definition Header_Get :: "Header \<Rightarrow> string \<Rightarrow> string" where
  "Header_Get h key =
     (case h (CanonicalMIMEHeaderKey key) of None \<Rightarrow> [] | Some [] \<Rightarrow> [] | Some (v # _) \<Rightarrow> v)"

definition Header_Set :: "Header \<Rightarrow> string \<Rightarrow> string \<Rightarrow> Header" where
  "Header_Set h key v = h(CanonicalMIMEHeaderKey key \<mapsto> [v])"

definition hextable :: string where
  "hextable = ''0123456789abcdef''"

definition hex_EncodeToString :: "byte list \<Rightarrow> string" where
  "hex_EncodeToString src =
     concat (map (\<lambda>v. [hextable ! unat (drop_bit 4 v), hextable ! unat (v AND 0x0f)]) src)"

text \<open>
  The hash functions of the standard library are parameters: \<open>hmacSHA256 key msg\<close> is
  \<open>hmac.New(sha256.New, key)\<close> fed \<open>msg\<close> and summed, \<open>md5Sum\<close> the MD5 digest.
\<close>

record crypto =
  hmacSHA256 :: "string \<Rightarrow> string \<Rightarrow> byte list"
  md5Sum :: "byte list \<Rightarrow> byte list"

text \<open>
  \<open>GenerateSignature\<close>: the loop appends one line per signed header to the buffer;
  \<open>s[:len(s)-1]\<close> then drops the last byte, and would panic on an empty buffer.
\<close>

definition signatureLine :: "Header \<Rightarrow> string \<Rightarrow> string \<Rightarrow> string" where
  "signatureLine header buf headerKey =
     buf @ strings_ToLower headerKey @ [CHR '':''] @ Header_Get header headerKey @ [CHR 0x0A]"

definition GenerateSignature :: "crypto \<Rightarrow> string \<Rightarrow> Header \<Rightarrow> string exec" where
  "GenerateSignature K appSecret header =
     (let s = foldl (signatureLine header) [] signatureSourceHeaders in
      if length s = 0 then Panic (SliceBoundsOutOfRange 0 (- 1) 0)
      else Return (hex_EncodeToString (hmacSHA256 K appSecret (take (length s - 1) s))))"

text \<open>Decimal formatting: \<open>strconv.FormatInt(n, 10)\<close> and the verbs \<open>%d\<close> and \<open>%08d\<close>.\<close>

fun decimal :: "nat \<Rightarrow> string" where
  "decimal n =
     (if n < 10 then [char_of (48 + n)] else decimal (n div 10) @ [char_of (48 + n mod 10)])"

definition FormatInt :: "int \<Rightarrow> string" where
  "FormatInt i = (if i < 0 then CHR ''-'' # decimal (nat (- i)) else decimal (nat i))"

definition pad08 :: "nat \<Rightarrow> string" where
  "pad08 n = replicate (8 - length (decimal n)) CHR ''0'' @ decimal n"

text \<open>
  A request as \<open>RoundTrip\<close> uses it: \<open>GetBody\<close> is \<open>None\<close> for a \<open>nil\<close> function, else
  what calling it and reading the body gives. \<open>unixNow\<close> is \<open>time.Now().Unix()\<close> and
  \<open>randIntn\<close> the value of \<open>rand.Intn(10e8)\<close>. The result is the error, or the signed
  request as it is handed to the underlying transport.
\<close>

record Request =
  Method :: string
  Header :: Header
  GetBody :: "(error + byte list) option"

record ApiTransport =
  AppKey :: string
  AppSecret :: string

definition RoundTrip ::
  "crypto \<Rightarrow> int \<Rightarrow> nat \<Rightarrow> ApiTransport \<Rightarrow> Request \<Rightarrow> (error + Request) exec" where
  "RoundTrip K unixNow randIntn t r =
     (let nonce = FormatInt unixNow @ pad08 randIntn;
          h1 = Header_Set (Header r) HeaderBiliTimestamp (FormatInt unixNow);
          h2 = Header_Set h1 HeaderBiliSignatureMethod ''HMAC-SHA256'';
          h3 = Header_Set h2 HeaderBiliSignatureNonce nonce;
          h4 = Header_Set h3 HeaderBiliAccessKeyId (AppKey t);
          h5 = Header_Set h4 HeaderBiliSignatureVersion ''1.0'';
          sign = (\<lambda>h. bindE (GenerateSignature K (AppSecret t) h) (\<lambda>sig.
                    Return (Inr (r\<lparr>Header := Header_Set h ''Authorization'' sig\<rparr>))))
      in if Method r = ''POST''
         then (case GetBody r of
                 None \<Rightarrow> Panic NilPointerDereference
               | Some (Inl e) \<Rightarrow> Return (Inl (Wrap ''failed to get body'' e))
               | Some (Inr bodyBytes) \<Rightarrow>
                   sign (Header_Set h5 HeaderBiliContentMD5
                          (hex_EncodeToString (md5Sum K bodyBytes))))
         else sign h5)"

section \<open>The client facade\<close>

record websocketInfo =
  AuthBody :: string
  WSSLink :: "string list"

record appStartGameInfo =
  GameID :: string

record appStartData =
  GameInfo :: appStartGameInfo
  WebsocketInfo :: websocketInfo

type_synonym CommonErrorCode = int

record 'a CommonResponse =
  Code :: CommonErrorCode
  Message :: string
  RequestID :: string
  Data :: 'a

definition Err :: "'a CommonResponse \<Rightarrow> error option" where
  "Err r = (if Code r \<noteq> 0 then Some (CommonError (Code r) (Message r) (RequestID r)) else None)"

text \<open>
  The mutex \<open>mu\<close> and the HTTP client are not fields of the model: \<open>Connect\<close> holds \<open>mu\<close>
  from its first line to its return (or panic), and the HTTP exchange of \<open>commonCallApi\<close>
  for \<open>/v2/app/start\<close> is the parameter \<open>api\<close>, from the identity code and project id to
  the error or the decoded response.
\<close>

record LiveClient =
  ApiHost :: string
  AppKey :: string
  AppSecret :: string
  ProjectID :: int
  OnDanmaku :: bool
  OnClose :: bool
  clientState :: clientState
  liveCode :: string
  gameID :: string
  wsInfo :: websocketInfo
  wsClient :: "liveWebsocketClient option"

type_synonym startApi = "string \<Rightarrow> int \<Rightarrow> error + appStartData CommonResponse"

definition callAppStart :: "startApi \<Rightarrow> LiveClient \<Rightarrow> error option \<times> LiveClient" where
  "callAppStart api c =
     (case api (liveCode c) (ProjectID c) of
        Inl e \<Rightarrow> (Some e, c)
      | Inr rsp \<Rightarrow>
          (case Err rsp of
             Some e \<Rightarrow> (Some e, c)
           | None \<Rightarrow> (None, c\<lparr>gameID := GameID (GameInfo (Data rsp)),
                              wsInfo := WebsocketInfo (Data rsp)\<rparr>)))"

text \<open>
  A call of the facade returns, panics, or never returns: the close callback of a
  connection made by \<open>connectWs\<close> is \<open>onWsClose\<close>, which calls \<open>Disconnect\<close>, which waits
  for \<open>mu\<close>. \<open>Connect\<close> and \<open>Disconnect\<close> hold \<open>mu\<close> while they close a connection, so
  for them a call of the callback does not return (\<open>cbReturns\<close> is \<open>False\<close>).
\<close>

datatype 'a outcome = Panicked panic | Deadlocked | Returned 'a

text \<open>
  \<open>connectWs\<close>: close the previous connection if there is one, then build the new one
  from the first endpoint, \<open>c.wsInfo.WSSLink[0]\<close>, an index expression.
\<close>

definition connectWs ::
  "'w transport \<Rightarrow> LiveClient \<Rightarrow> (error option \<times> LiveClient) outcome" where
  "connectWs T c =
     (case (case wsClient c of
              None \<Rightarrow> Finished []
            | Some old \<Rightarrow>
                (case Close T False old of
                   Stuck old' \<Rightarrow> Stuck old'
                 | Finished (Some e, old') \<Rightarrow>
                     Finished (trace old'
                               @ [Log WarnLevel ''close last websocket client fail'' (Some e)])
                 | Finished (None, old') \<Rightarrow> Finished (trace old'))) of
        Stuck old' \<Rightarrow> Deadlocked
      | Finished tr \<Rightarrow>
          case WSSLink (wsInfo c) of
             [] \<Rightarrow> Panicked (IndexOutOfRange 0 0)
           | u # _ \<Rightarrow>
               (let w = \<lparr>url = u, authBody = AuthBody (wsInfo c), onDanmaku = OnDanmaku c,
                         onClose = True, state = websocketClientStateIdle, conn = False,
                         seqID = 0, heartbeatTicker = False, loopCtx = False,
                         loopCancel = False,
                         eventHandler = Map.empty, trace = tr\<rparr>
                in case connect T w of
                     Panic p \<Rightarrow> Panicked p
                   | Return (Some e, w') \<Rightarrow>
                       Returned (Some (Wrap ''connect websocket fail'' e),
                                 c\<lparr>wsClient := Some (emit (Log ErrorLevel
                                        ''connect websocket fail'' (Some e)) w')\<rparr>)
                   | Return (None, w') \<Rightarrow> Returned (None, c\<lparr>wsClient := Some w'\<rparr>)))"

definition Connect ::
  "startApi \<Rightarrow> 'w transport \<Rightarrow> string \<Rightarrow> LiveClient
     \<Rightarrow> (error option \<times> LiveClient) outcome" where
  "Connect api T code c =
     (if clientState c \<noteq> clientStateIdle then Returned (Some ClientStateNotIdle, c)
      else case callAppStart api (c\<lparr>liveCode := code\<rparr>) of
        (Some e, c1) \<Rightarrow> Returned (Some (Wrap ''start app fail'' e), c1)
      | (None, c1) \<Rightarrow>
          (case connectWs T (c1\<lparr>clientState := clientStateActive\<rparr>) of
             Panicked p \<Rightarrow> Panicked p
           | Deadlocked \<Rightarrow> Deadlocked
           | Returned (Some e, c2) \<Rightarrow> Returned (Some (Wrap ''connect ws fail'' e), c2)
           | Returned (None, c2) \<Rightarrow> Returned (None, c2)))"

text \<open>
  \<open>Disconnect\<close>, holding \<open>mu\<close>: the session-end call comes first when the client is
  active, and its error is only logged; then the connection is closed and released and
  the client is idle.
\<close>

definition Disconnect ::
  "'w transport \<Rightarrow> LiveClient \<Rightarrow> (error option \<times> LiveClient) outcome" where
  "Disconnect T c =
     (case wsClient c of
        None \<Rightarrow> Returned (None, c\<lparr>clientState := clientStateIdle\<rparr>)
      | Some w \<Rightarrow>
          (case Close T False w of
             Stuck w' \<Rightarrow> Deadlocked
           | Finished (err, w') \<Rightarrow>
               Returned (None, c\<lparr>wsClient := None, clientState := clientStateIdle\<rparr>)))"

section \<open>The specification's wording of the decode validation and of the signature\<close>

text \<open>
  The wire bytes read as integers: a big-endian field is the number its bytes spell in
  base 256, a signed field of \<open>w\<close> bits is that number less \<open>2 ^ w\<close> when its top bit is
  set. The validation rejects in the order (a), (b), (c), (d) of the specification.
\<close>

definition be_nat :: "byte list \<Rightarrow> nat" where
  "be_nat bs = foldl (\<lambda>acc b. 256 * acc + unat b) 0 bs"

definition signed_of :: "nat \<Rightarrow> nat \<Rightarrow> int" where
  "signed_of w n = (if n < 2 ^ (w - 1) then int n else int n - 2 ^ w)"

definition spec_packetLength :: "byte list \<Rightarrow> int" where
  "spec_packetLength bs = signed_of 32 (be_nat (take 4 bs))"

definition spec_headerLength :: "byte list \<Rightarrow> int" where
  "spec_headerLength bs = signed_of 16 (be_nat (take 2 (drop 4 bs)))"

definition spec_headerSize :: int where "spec_headerSize = 16"
definition spec_maxBodySize :: int where "spec_maxBodySize = 2048"

definition spec_decode_check :: "byte list \<Rightarrow> error option" where
  "spec_decode_check bs =
     (let packetLength = spec_packetLength bs; headerLength = spec_headerLength bs in
      if packetLength < 0 \<or> packetLength > spec_maxBodySize + spec_headerSize
      then Some (InvalidPackSize packetLength)
      else if int (length bs) < packetLength
      then Some (BufferSmallerThanPacket (length bs) packetLength)
      else if headerLength \<noteq> spec_headerSize
      then Some (UnsupportedHeaderSize headerLength)
      else if packetLength - headerLength \<le> 0
      then Some (InvalidBodySize (packetLength - headerLength))
      else None)"

text \<open>
  The string to sign: the six lines \<open>key:value\<close>, keys in lower case and in
  alphabetical order, joined by newlines with none at the end.
\<close>

fun spec_join :: "string \<Rightarrow> string list \<Rightarrow> string" where
  "spec_join sep [] = []"
| "spec_join sep [x] = x"
| "spec_join sep (x # y # ys) = x @ sep @ spec_join sep (y # ys)"

definition spec_signedKeys :: "string list" where
  "spec_signedKeys =
     [''x-bili-accesskeyid'', ''x-bili-content-md5'', ''x-bili-signature-method'',
      ''x-bili-signature-nonce'', ''x-bili-signature-version'', ''x-bili-timestamp'']"

definition spec_signedLines :: "Header \<Rightarrow> string list" where
  "spec_signedLines h = map (\<lambda>k. k @ '':'' @ Header_Get h k) spec_signedKeys"

definition spec_signature :: "crypto \<Rightarrow> string \<Rightarrow> Header \<Rightarrow> string" where
  "spec_signature K secret h =
     hex_EncodeToString (hmacSHA256 K secret (spec_join [CHR 0x0A] (spec_signedLines h)))"

section \<open>Auxiliary notions of the proofs\<close>

text \<open>The big-endian fields at an offset of a byte list, and the parser after its reads.\<close>

definition be32 :: "byte list \<Rightarrow> nat \<Rightarrow> 32 word" where
  "be32 bs i = ucast (bs ! (i + 3)) OR push_bit 8 (ucast (bs ! (i + 2)))
                   OR push_bit 16 (ucast (bs ! (i + 1))) OR push_bit 24 (ucast (bs ! i))"

definition be16 :: "byte list \<Rightarrow> nat \<Rightarrow> 16 word" where
  "be16 bs i = ucast (bs ! (i + 1)) OR push_bit 8 (ucast (bs ! i))"

definition validate :: "goslice \<Rightarrow> (wsProtoMsg \<times> error option) exec" where
  "validate buf =
     (let packSize = be32 (elems buf) 0; headerLength = be16 (elems buf) 4;
          p = \<lparr>Version = be16 (elems buf) 6, Operation = be32 (elems buf) 8,
               SequenceID = be32 (elems buf) 12, Body = nil_slice\<rparr> in
       if packSize <s 0 \<or> wsProtoMaxPackSize <s packSize
       then Return (p, Some (InvalidPackSize (sint packSize)))
       else if int (len buf) < sint packSize
       then Return (p, Some (BufferSmallerThanPacket (len buf) (sint packSize)))
       else if headerLength \<noteq> word_of_int wsProtoRawHeaderSize
       then Return (p, Some (UnsupportedHeaderSize (sint headerLength)))
       else
         let bodySize = sint (packSize - scast headerLength) in
         if bodySize \<le> 0
         then Return (p, Some (InvalidBodySize bodySize))
         else bindE (sliceLH buf (sint headerLength) (sint packSize)) (\<lambda>body.
              Return (p\<lparr>Body := body\<rparr>, None)))"

text \<open>
  Two states of a connection between which nothing of its teardown has happened: the
  same calls of the close callback, the same transport, cancellation function and ticker.
\<close>

definition sameLifecycle :: "liveWebsocketClient \<Rightarrow> liveWebsocketClient \<Rightarrow> bool" where
  "sameLifecycle c c' =
     (closeCalls (trace c') = closeCalls (trace c) \<and> conn c' = conn c
      \<and> loopCancel c' = loopCancel c \<and> heartbeatTicker c' = heartbeatTicker c)"

text \<open>The two run-time panics that report an index or slice bound out of range.\<close>

definition outOfRange :: "panic \<Rightarrow> bool" where
  "outOfRange p =
     (case p of SliceBoundsOutOfRange lo hi c \<Rightarrow> True | IndexOutOfRange i n \<Rightarrow> True
      | NilPointerDereference \<Rightarrow> False)"

definition frameBytes ::
  "32 word \<Rightarrow> 16 word \<Rightarrow> 16 word \<Rightarrow> 32 word \<Rightarrow> 32 word \<Rightarrow> byte list \<Rightarrow> byte list" where
  "frameBytes ps hl ver op seq body =
     BigEndian_PutUint32 ps @ BigEndian_PutUint16 hl @ BigEndian_PutUint16 ver
       @ BigEndian_PutUint32 op @ BigEndian_PutUint32 seq @ body"

text \<open>
  The sequence-number invariant of an open connection: the counter is the number of
  frames built since the dial, read as a 32-bit word, and the frames carry
  \<open>0, 1, 2, \<dots>\<close> as 32-bit words. \<open>framesOfRun\<close> reads the frames off a finished run.
\<close>

definition seqInv :: "liveWebsocketClient \<Rightarrow> bool" where
  "seqInv c =
     (conn c \<and> loopCtx c \<and> heartbeatTicker c
      \<and> seqID c = word_of_nat (length (framesSinceDial (trace c)))
      \<and> map SequenceID (framesSinceDial (trace c))
          = map word_of_nat [0..<length (framesSinceDial (trace c))])"

definition framesOfRun :: "('a \<times> liveWebsocketClient) exec \<Rightarrow> wsProtoMsg list" where
  "framesOfRun r = (case r of Panic p \<Rightarrow> [] | Return (x, c) \<Rightarrow> framesSinceDial (trace c))"

text \<open>The connection as a call that may be stuck in the close callback leaves it.\<close>

definition leftBy :: "(error option \<times> liveWebsocketClient) call \<Rightarrow> liveWebsocketClient" where
  "leftBy r = (case r of Stuck c \<Rightarrow> c | Finished (e, c) \<Rightarrow> c)"


section \<open>Sample values\<close>

text \<open>
  Concrete inputs at which the theorems are instantiated: a transport on which every
  call succeeds, the JSON decoder's answers on three sample bodies, a connection as
  \<open>connectWs\<close> builds it and the same connection after \<open>connect\<close>, and sample frames.
  The hash functions of \<open>sampleCrypto\<close> are stand-ins; every theorem holds for any.
\<close>

definition sampleTransport :: "unit transport" where
  "sampleTransport = \<lparr>dialResult = (\<lambda>u tr. None), connWriter = (\<lambda>tr. Inr ()),
     connWrite = (\<lambda>w bs. (None, w)), connClose = (\<lambda>tr. None)\<rparr>"

definition sampleJson :: jsonDecoder where
  \<open>sampleJson =
     \<lparr>UnmarshalAuth = (\<lambda>b. if b = map of_char ''{"code":0}'' then Inr 0
                            else if b = map of_char ''{"code":1}'' then Inr 1
                            else Inl (External ''invalid json'')),
      GetCmd = (\<lambda>b. if b = map of_char ''{"cmd":"LIVE_OPEN_PLATFORM_GIFT","data":{}}''
                     then ''LIVE_OPEN_PLATFORM_GIFT'' else []),
      GetData = (\<lambda>b. Inl (External ''no data''))\<rparr>\<close>

definition sampleConn :: liveWebsocketClient where
  "sampleConn = \<lparr>url = ''wss://broadcast.example/sub'', authBody = ''token'', onDanmaku = True,
     onClose = True, state = websocketClientStateIdle, conn = False, seqID = 0,
     heartbeatTicker = False, loopCtx = False, loopCancel = False, eventHandler = Map.empty,
     trace = []\<rparr>"

definition sampleAuthFrame :: wsProtoMsg where
  "sampleAuthFrame = \<lparr>Version = 0, Operation = wsProtoOpAuth, SequenceID = 0,
     Body = bytesOf ''token''\<rparr>"

definition sampleConnected :: liveWebsocketClient where
  "sampleConnected = sampleConn
     \<lparr>state := websocketClientStateAuth, conn := True, seqID := 1,
      heartbeatTicker := True, loopCtx := True, loopCancel := True,
      eventHandler := [wsProtoOpAuthReply \<mapsto> HandleOpAuth,
                       wsProtoOpHeartbeatReply \<mapsto> HandleOpHeartbeat,
                       wsProtoOpSendMsgReply \<mapsto> HandleOpMsg],
      trace := [Dial ''wss://broadcast.example/sub'' None, GoReadLoop, GoEventLoop,
                WriteMsg sampleAuthFrame None]\<rparr>"


definition sampleCloseError :: error where
  "sampleCloseError = External ''status = StatusNormalClosure and reason = client close''"

definition sampleTornDown :: liveWebsocketClient where
  "sampleTornDown = sampleConnected
     \<lparr>state := websocketClientStateIdle, conn := False, heartbeatTicker := False,
      loopCancel := False,
      trace := trace sampleConnected
        @ [ConnClose None,
           Log InfoLevel ''connection receive close message'' (Some sampleCloseError),
           LoopCancel, TickerStop, CallOnClose (Some sampleCloseError),
           CallOnClose None]\<rparr>"

definition rejectedAck :: wsProtoMsg where
  \<open>rejectedAck = \<lparr>Version = 0, Operation = wsProtoOpAuthReply, SequenceID = 0,
     Body = bytesOf ''{"code":1}''\<rparr>\<close>

definition acceptedAck :: wsProtoMsg where
  \<open>acceptedAck = \<lparr>Version = 0, Operation = wsProtoOpAuthReply, SequenceID = 0,
     Body = bytesOf ''{"code":0}''\<rparr>\<close>

definition giftMsg :: wsProtoMsg where
  \<open>giftMsg = \<lparr>Version = 0, Operation = wsProtoOpSendMsgReply, SequenceID = 0,
     Body = bytesOf ''{"cmd":"LIVE_OPEN_PLATFORM_GIFT","data":{}}''\<rparr>\<close>

definition sampleClient :: LiveClient where
  "sampleClient = \<lparr>ApiHost = [], AppKey = ''key'', AppSecret = ''secret'', ProjectID = 1,
     OnDanmaku = True, OnClose = False, clientState = clientStateIdle, liveCode = [],
     gameID = [], wsInfo = \<lparr>AuthBody = [], WSSLink = []\<rparr>, wsClient = None\<rparr>"

definition sampleApiNoEndpoint :: startApi where
  "sampleApiNoEndpoint = (\<lambda>code project.
     Inr \<lparr>Code = 0, Message = ''0'', RequestID = ''request-1'',
          Data = \<lparr>GameInfo = \<lparr>GameID = ''game-1''\<rparr>,
                   WebsocketInfo = \<lparr>AuthBody = ''token'', WSSLink = []\<rparr>\<rparr>\<rparr>)"

definition sampleApi :: startApi where
  "sampleApi = (\<lambda>code project.
     Inr \<lparr>Code = 0, Message = ''0'', RequestID = ''request-2'',
          Data = \<lparr>GameInfo = \<lparr>GameID = ''game-1''\<rparr>,
                   WebsocketInfo = \<lparr>AuthBody = ''token'',
                                     WSSLink = [''wss://broadcast.example/sub'']\<rparr>\<rparr>\<rparr>)"

definition sampleClientConnected :: LiveClient where
  "sampleClientConnected = sampleClient
     \<lparr>clientState := clientStateActive, liveCode := ''live-code'', gameID := ''game-1'',
      wsInfo := \<lparr>AuthBody = ''token'', WSSLink = [''wss://broadcast.example/sub'']\<rparr>,
      wsClient := Some sampleConnected\<rparr>"

definition sampleCrypto :: crypto where
  "sampleCrypto = \<lparr>hmacSHA256 = (\<lambda>key msg. [word_of_nat (length key), word_of_nat (length msg)]),
     md5Sum = (\<lambda>b. [word_of_nat (length b)])\<rparr>"

definition sampleApiTransport :: ApiTransport where
  "sampleApiTransport = \<lparr>ApiTransport.AppKey = ''key'', ApiTransport.AppSecret = ''secret''\<rparr>"

definition sampleRequest :: Request where
  "sampleRequest = \<lparr>Method = ''POST'', Header = Map.empty, GetBody = Some (Inr [])\<rparr>"

text \<open>The headers of \<open>sampleRequest\<close> as \<open>RoundTrip\<close> stamps them at time 1700000000.\<close>

definition sampleSigned :: Header where
  "sampleSigned =
     Header_Set (Header_Set (Header_Set (Header_Set (Header_Set (Header_Set Map.empty
       HeaderBiliTimestamp (FormatInt 1700000000))
       HeaderBiliSignatureMethod ''HMAC-SHA256'')
       HeaderBiliSignatureNonce (FormatInt 1700000000 @ pad08 42))
       HeaderBiliAccessKeyId ''key'')
       HeaderBiliSignatureVersion ''1.0'')
       HeaderBiliContentMD5 (hex_EncodeToString (md5Sum sampleCrypto []))"

section \<open>Big-endian reads and writes\<close>

lemma be32_roundtrip:
  "(ucast (ucast v :: byte) OR push_bit 8 (ucast (ucast (drop_bit 8 v) :: byte))
          OR push_bit 16 (ucast (ucast (drop_bit 16 v) :: byte))
          OR push_bit 24 (ucast (ucast (drop_bit 24 v) :: byte))) = (v :: 32 word)"
  (is "?x = v")
proof (rule bit_word_eqI)
  fix n assume "n < LENGTH(32)"
  then show "bit ?x n = bit v n"
    by (cases "n < 8"; cases "n < 16"; cases "n < 24") (auto simp: bit_simps)
qed

lemma be16_roundtrip:
  "(ucast (ucast v :: byte) OR push_bit 8 (ucast (ucast (drop_bit 8 v) :: byte))) = (v :: 16 word)"
  (is "?x = v")
proof (rule bit_word_eqI)
  fix n assume "n < LENGTH(16)"
  then show "bit ?x n = bit v n"
    by (cases "n < 8") (auto simp: bit_simps)
qed

lemma or_push8_32:
  "(ucast (b::byte) :: 32 word) OR push_bit 8 w = ucast b + 256 * w"
proof -
  have "(ucast b :: 32 word) AND push_bit 8 w = 0"
    by (rule bit_word_eqI) (auto simp: bit_simps dest: bit_imp_le_length)
  then have "(ucast b :: 32 word) OR push_bit 8 w = ucast b + push_bit 8 w"
    by (rule disjunctive_add_eq_or [symmetric])
  moreover have "push_bit 8 w = 256 * w"
    by (simp add: push_bit_eq_mult)
  ultimately show ?thesis by (simp only:)
qed

lemma be32_arith:
  "(ucast (b3::byte) OR push_bit 8 (ucast (b2::byte))
                   OR push_bit 16 (ucast (b1::byte)) OR push_bit 24 (ucast (b0::byte)) :: 32 word)
     = word_of_nat (unat b3 + 256 * unat b2 + 65536 * unat b1 + 16777216 * unat b0)"
proof -
  have "(ucast b3 OR push_bit 8 (ucast b2) OR push_bit 16 (ucast b1) OR push_bit 24 (ucast b0) :: 32 word)
      = ucast b3 OR push_bit 8 (ucast b2 OR push_bit 8 (ucast b1 OR push_bit 8 (ucast b0)))"
    by (simp add: push_bit_or or.assoc push_bit_push_bit)
  also have "\<dots> = ucast b3 + 256 * (ucast b2 + 256 * (ucast b1 + 256 * ucast b0))"
    by (simp only: or_push8_32)
  finally show ?thesis
    by (simp add: algebra_simps)
qed

lemma be32_of_nat:
  "be32 bs i = word_of_nat (16777216 * unat (bs ! i) + 65536 * unat (bs ! (i + 1))
                            + 256 * unat (bs ! (i + 2)) + unat (bs ! (i + 3)))"
  by (simp add: be32_def be32_arith add.commute add.left_commute)

lemma be16_of_nat:
  "be16 bs i = word_of_nat (256 * unat (bs ! i) + unat (bs ! (i + 1)))"
proof -
  have "(ucast (bs ! (i + 1)) OR push_bit 8 (ucast (bs ! i)) :: 16 word)
          = ucast (bs ! (i + 1)) + push_bit 8 (ucast (bs ! i))"
  proof (rule disjunctive_add_eq_or [symmetric])
    show "(ucast (bs ! (i + 1)) :: 16 word) AND push_bit 8 (ucast (bs ! i)) = 0"
      by (rule bit_word_eqI) (auto simp: bit_simps dest: bit_imp_le_length)
  qed
  then show ?thesis
    by (simp add: be16_def push_bit_eq_mult)
qed

lemma read32:
  assumes "i + 4 \<le> length (elems buf)"
  shows "bindE (sliceLH buf (int i) (int i + 4)) BigEndian_Uint32 = Return (be32 (elems buf) i)"
  using assms
  by (simp add: sliceLH_def cap_def bindE_def BigEndian_Uint32_def len_def be32_def nat_add_distrib
      nth_append add.commute)

lemma read16:
  assumes "i + 2 \<le> length (elems buf)"
  shows "bindE (sliceLH buf (int i) (int i + 2)) BigEndian_Uint16 = Return (be16 (elems buf) i)"
  using assms
  by (simp add: sliceLH_def cap_def bindE_def BigEndian_Uint16_def len_def be16_def nat_add_distrib
      nth_append add.commute)

lemma read32_tail:
  assumes "i + 4 \<le> length (elems buf)"
  shows "bindE (sliceL buf (int i)) BigEndian_Uint32 = Return (be32 (elems buf) i)"
  using assms
  by (simp add: sliceL_def cap_def bindE_def BigEndian_Uint32_def len_def be32_def add.commute)

lemma read32K:
  assumes "i + 4 \<le> length (elems buf)"
  shows "bindE (sliceLH buf (int i) (int i + 4)) (\<lambda>s. bindE (BigEndian_Uint32 s) K)
           = K (be32 (elems buf) i)"
  using read32 [OF assms] by (auto simp: bindE_def split: exec.splits)

lemma read16K:
  assumes "i + 2 \<le> length (elems buf)"
  shows "bindE (sliceLH buf (int i) (int i + 2)) (\<lambda>s. bindE (BigEndian_Uint16 s) K)
           = K (be16 (elems buf) i)"
  using read16 [OF assms] by (auto simp: bindE_def split: exec.splits)

lemma read32_tailK:
  assumes "i + 4 \<le> length (elems buf)"
  shows "bindE (sliceL buf (int i)) (\<lambda>s. bindE (BigEndian_Uint32 s) K)
           = K (be32 (elems buf) i)"
  using read32_tail [OF assms] by (auto simp: bindE_def split: exec.splits)

lemma wsProtoRawHeaderSize_16: "wsProtoRawHeaderSize = 16"
  by (simp add: wsProtoRawHeaderSize_def wsProtoPackSize_def wsProtoHeaderSize_def
      wsProtoVerSize_def wsProtoOperationSize_def wsProtoSeqIdSize_def)

lemma sint_wsProtoMaxPackSize: "sint wsProtoMaxPackSize = 2064"
  by (simp add: wsProtoMaxPackSize_def wsProtoMaxBodySize_def wsProtoRawHeaderSize_16)

lemmas wsProtoOffsets =
  wsProtoPackOffset_def wsProtoHeaderOffset_def wsProtoVerOffset_def wsProtoOperationOffset_def
  wsProtoSeqIdOffset_def wsProtoPackSize_def wsProtoHeaderSize_def wsProtoVerSize_def
  wsProtoOperationSize_def

text \<open>With all sixteen header bytes present, the five reads succeed.\<close>

lemma parse_validate:
  assumes "16 \<le> len buf"
  shows "parseWsProtoMsg buf = validate buf"
proof -
  have l: "16 \<le> length (elems buf)" using assms by (simp add: len_def)
  have r0: "\<And>K. bindE (sliceLH buf 0 4) (\<lambda>s. bindE (BigEndian_Uint32 s) K) = K (be32 (elems buf) 0)"
    using read32K [of 0 buf] l by simp
  have r4: "\<And>K. bindE (sliceLH buf 4 6) (\<lambda>s. bindE (BigEndian_Uint16 s) K) = K (be16 (elems buf) 4)"
    using read16K [of 4 buf] l by simp
  have r6: "\<And>K. bindE (sliceLH buf 6 8) (\<lambda>s. bindE (BigEndian_Uint16 s) K) = K (be16 (elems buf) 6)"
    using read16K [of 6 buf] l by simp
  have r8: "\<And>K. bindE (sliceLH buf 8 12) (\<lambda>s. bindE (BigEndian_Uint32 s) K) = K (be32 (elems buf) 8)"
    using read32K [of 8 buf] l by simp
  have r12: "\<And>K. bindE (sliceL buf 12) (\<lambda>s. bindE (BigEndian_Uint32 s) K) = K (be32 (elems buf) 12)"
    using read32_tailK [of 12 buf] l by simp
  show ?thesis
    unfolding parseWsProtoMsg_def validate_def wsProtoOffsets
    by (simp add: r0 r4 r6 r8 r12 Let_def)
qed

subsection \<open>Signed readings\<close>

lemma mod_wrap_once:
  fixes a m :: int
  assumes "m \<le> a" "a < 2 * m"
  shows "a mod m = a - m"
proof -
  have "a mod m = (a - m) mod m" by simp
  also have "\<dots> = a - m" using assms by (intro mod_pos_pos_trivial) auto
  finally show ?thesis .
qed

lemma sint32_of_nat:
  assumes "N < 4294967296"
  shows "sint (word_of_nat N :: 32 word) = (if N < 2147483648 then int N else int N - 4294967296)"
proof -
  have "sint (word_of_nat N :: 32 word) = (int N + 2147483648) mod 4294967296 - 2147483648"
    using int_word_sint [of "int N", where ?'a = 32] by simp
  moreover have "N < 2147483648 \<Longrightarrow> (int N + 2147483648) mod 4294967296 = int N + 2147483648"
    by (intro mod_pos_pos_trivial) auto
  moreover have "\<not> N < 2147483648 \<Longrightarrow>
      (int N + 2147483648) mod 4294967296 = int N + 2147483648 - 4294967296"
    using assms by (intro mod_wrap_once) auto
  ultimately show ?thesis by simp
qed

lemma sint16_of_nat:
  assumes "N < 65536"
  shows "sint (word_of_nat N :: 16 word) = (if N < 32768 then int N else int N - 65536)"
proof -
  have "sint (word_of_nat N :: 16 word) = (int N + 32768) mod 65536 - 32768"
    using int_word_sint [of "int N", where ?'a = 16] by simp
  moreover have "N < 32768 \<Longrightarrow> (int N + 32768) mod 65536 = int N + 32768"
    by (intro mod_pos_pos_trivial) auto
  moreover have "\<not> N < 32768 \<Longrightarrow> (int N + 32768) mod 65536 = int N + 32768 - 65536"
    using assms by (intro mod_wrap_once) auto
  ultimately show ?thesis by simp
qed

lemma list16:
  assumes "16 \<le> length (bs :: 'a list)"
  shows "\<exists>b0 b1 b2 b3 b4 b5 r. bs = b0 # b1 # b2 # b3 # b4 # b5 # r"
  using assms by (auto simp: Suc_le_length_iff eval_nat_numeral)

lemma unat_byte_bound: "unat (b :: byte) < 256"
  using unsigned_less [of b, where ?'a = nat] by simp

lemma sint_be32:
  assumes "16 \<le> length bs"
  shows "sint (be32 bs 0) = spec_packetLength bs"
proof -
  obtain b0 b1 b2 b3 b4 b5 r where bs: "bs = b0 # b1 # b2 # b3 # b4 # b5 # r"
    using list16 [OF assms] by blast
  let ?N = "16777216 * unat b0 + 65536 * unat b1 + 256 * unat b2 + unat b3"
  have N: "?N < 4294967296"
    using unat_byte_bound [of b0] unat_byte_bound [of b1] unat_byte_bound [of b2]
      unat_byte_bound [of b3] by linarith
  have "be_nat (take 4 bs) = ?N"
    by (simp add: bs be_nat_def)
  moreover have "be32 bs 0 = word_of_nat ?N"
    by (simp add: be32_of_nat bs)
  ultimately show ?thesis
    using sint32_of_nat [OF N] by (simp add: spec_packetLength_def signed_of_def)
qed

lemma sint_be16:
  assumes "16 \<le> length bs"
  shows "sint (be16 bs 4) = spec_headerLength bs"
proof -
  obtain b0 b1 b2 b3 b4 b5 r where bs: "bs = b0 # b1 # b2 # b3 # b4 # b5 # r"
    using list16 [OF assms] by blast
  let ?N = "256 * unat b4 + unat b5"
  have N: "?N < 65536"
    using unat_byte_bound [of b4] unat_byte_bound [of b5] by linarith
  have "be_nat (take 2 (drop 4 bs)) = ?N"
    by (simp add: bs be_nat_def)
  moreover have "be16 bs 4 = word_of_nat ?N"
    by (simp add: be16_of_nat bs)
  ultimately show ?thesis
    using sint16_of_nat [OF N] by (simp add: spec_headerLength_def signed_of_def)
qed

lemma sint_eq_16: "(w = (16 :: 16 word)) = (sint w = 16)"
  using word_eq_iff_signed [of w 16, where ?'a = int] by simp

lemma sint_sub_16:
  assumes "0 \<le> sint (w :: 32 word)"
  shows "sint (w - 16) = sint w - 16"
proof -
  have "sint w < 2147483648" using sint_lt [of w] by simp
  then have "signed_take_bit 31 (sint w - 16) = sint w - 16"
    using assms by (intro signed_take_bit_int_eq_self) auto
  then show ?thesis
    by (simp add: sint_word_ariths)
qed

subsection \<open>The encoder's output\<close>

lemma write_Buffer:
  "writeWsProtoMsg Buffer_Write w p =
     (None, w @ frameBytes (word_of_int (16 + int (len (Body p)))) 16 (Version p)
                  (Operation p) (SequenceID p) (elems (Body p)))"
  by (simp add: writeWsProtoMsg_def binary_Write_def Buffer_Write_def wsProtoRawHeaderSize_16
      frameBytes_def)

lemma length_frameBytes: "length (frameBytes ps hl ver op seq body) = 16 + length body"
  by (simp add: frameBytes_def BigEndian_PutUint32_def BigEndian_PutUint16_def)

lemma drop_frameBytes: "drop 16 (frameBytes ps hl ver op seq body) = body"
  by (simp add: frameBytes_def BigEndian_PutUint32_def BigEndian_PutUint16_def)

lemma frameBytes_fields:
  "be32 (frameBytes ps hl ver op seq body) 0 = ps"
  "be16 (frameBytes ps hl ver op seq body) 4 = hl"
  "be16 (frameBytes ps hl ver op seq body) 6 = ver"
  "be32 (frameBytes ps hl ver op seq body) 8 = op"
  "be32 (frameBytes ps hl ver op seq body) 12 = seq"
  by (simp_all add: frameBytes_def be32_def be16_def BigEndian_PutUint32_def
      BigEndian_PutUint16_def be32_roundtrip be16_roundtrip)

lemma bindE_panicsP:
  assumes "\<And>pn. m = Panic pn \<Longrightarrow> P pn" and "\<And>x. \<exists>pn. f x = Panic pn \<and> P pn"
  shows "\<exists>pn. bindE m f = Panic pn \<and> P pn"
  using assms by (cases m) (simp_all add: bindE_def)

lemma sliceLH_outOfRange: "sliceLH s lo hi = Panic pn \<Longrightarrow> outOfRange pn"
  by (auto simp: sliceLH_def outOfRange_def split: if_splits)

lemma sliceL_outOfRange: "sliceL s lo = Panic pn \<Longrightarrow> outOfRange pn"
  by (auto simp: sliceL_def outOfRange_def split: if_splits)

lemma Uint32_outOfRange: "BigEndian_Uint32 b = Panic pn \<Longrightarrow> outOfRange pn"
  by (auto simp: BigEndian_Uint32_def outOfRange_def split: if_splits)

lemma Uint16_outOfRange: "BigEndian_Uint16 b = Panic pn \<Longrightarrow> outOfRange pn"
  by (auto simp: BigEndian_Uint16_def outOfRange_def split: if_splits)

lemma seq_read_panicsP:
  assumes "len buf < 16"
  shows "\<exists>pn. bindE (sliceL buf wsProtoSeqIdOffset) (\<lambda>s4. bindE (BigEndian_Uint32 s4) K) = Panic pn
           \<and> outOfRange pn"
  using assms
  by (auto simp: sliceL_def BigEndian_Uint32_def bindE_def len_def wsProtoOffsets outOfRange_def)

section \<open>The frame codec: round trip, validation order, short buffers\<close>

text \<open>
  C1, as the code has it. A frame whose body has between 1 and 2048 bytes, written by
  \<open>writeWsProtoMsg\<close> into a buffer, is read back by \<open>parseWsProtoMsg\<close> without error and
  with the same operation, version, sequence ID and body bytes, whatever spare capacity
  the received buffer has. (The frame with an empty body is not read back.)
\<close>

theorem roundtrip_nonempty_body:
  assumes "1 \<le> len (Body p)" and "len (Body p) \<le> unat wsProtoMaxBodySize"
  shows "\<exists>bs q. writeWsProtoMsg Buffer_Write [] p = (None, bs)
           \<and> parseWsProtoMsg (Slice bs sp) = Return (q, None)
           \<and> Operation q = Operation p \<and> Version q = Version p
           \<and> SequenceID q = SequenceID p \<and> elems (Body q) = elems (Body p)"
proof -
  define n where "n = length (elems (Body p))"
  have n: "1 \<le> n" "n \<le> 2048" using assms by (simp_all add: n_def len_def wsProtoMaxBodySize_def)
  define ps :: "32 word" where "ps = word_of_int (16 + int n)"
  define bs where "bs = frameBytes ps 16 (Version p) (Operation p) (SequenceID p) (elems (Body p))"
  have "ps = word_of_nat (16 + n)" by (simp add: ps_def)
  then have sps: "sint ps = 16 + int n"
    using sint32_of_nat [of "16 + n"] n by simp
  then have sub: "sint (ps - 16) = int n"
    using sint_sub_16 [of ps] by simp
  have w: "writeWsProtoMsg Buffer_Write [] p = (None, bs)"
    by (simp add: write_Buffer bs_def ps_def n_def len_def)
  have lb: "length bs = 16 + n"
    by (simp add: bs_def length_frameBytes n_def)
  have "parseWsProtoMsg (Slice bs sp) = validate (Slice bs sp)"
    by (rule parse_validate) (simp add: len_def lb)
  also have "\<dots> = Return (\<lparr>Version = Version p, Operation = Operation p,
       SequenceID = SequenceID p, Body = Slice (elems (Body p)) sp\<rparr>, None)"
    using n sps sub
    by (simp add: validate_def Let_def bs_def frameBytes_fields length_frameBytes
        drop_frameBytes wsProtoRawHeaderSize_16 sint_wsProtoMaxPackSize word_sless_alt len_def
        sliceLH_def cap_def bindE_def flip: n_def)
  finally show ?thesis using w by simp
qed

text \<open>
  Witness for C1: an authentication frame with the three-byte
  body \<open>abc\<close>.
\<close>

theorem roundtrip_nonempty_body_witness:
  "1 \<le> len (Slice [97, 98, 99] []) \<and> len (Slice [97, 98, 99] []) \<le> unat wsProtoMaxBodySize
   \<and> (\<exists>bs q. writeWsProtoMsg Buffer_Write []
                 \<lparr>Version = 0, Operation = wsProtoOpAuth, SequenceID = 0,
                  Body = Slice [97, 98, 99] []\<rparr> = (None, bs)
           \<and> parseWsProtoMsg (Slice bs []) = Return (q, None)
           \<and> Operation q = wsProtoOpAuth \<and> Version q = 0
           \<and> SequenceID q = 0 \<and> elems (Body q) = [97, 98, 99])"
proof -
  have h1: "1 \<le> len (Body \<lparr>Version = 0, Operation = wsProtoOpAuth, SequenceID = 0,
                  Body = Slice [97, 98, 99] []\<rparr>)"
    by (simp add: len_def)
  have h2: "len (Body \<lparr>Version = 0, Operation = wsProtoOpAuth, SequenceID = 0,
                  Body = Slice [97, 98, 99] []\<rparr>) \<le> unat wsProtoMaxBodySize"
    by (simp add: len_def wsProtoMaxBodySize_def)
  show ?thesis
    using h1 h2 roundtrip_nonempty_body [OF h1 h2, of "[]"] by simp
qed

text \<open>
  C1 as stated fails for the empty body: the heartbeat frame that \<open>sendHeartbeat\<close> builds
  (\<open>nil\<close> body) is written as sixteen bytes, and the parser answers them with
  \<open>invalid body size: 0\<close>.
\<close>

theorem roundtrip_empty_body_counterexample:
  "writeWsProtoMsg Buffer_Write []
     \<lparr>Version = 0, Operation = wsProtoOpHeartbeat, SequenceID = 1, Body = nil_slice\<rparr>
     = (None, [0, 0, 0, 16, 0, 16, 0, 0, 0, 0, 0, 2, 0, 0, 0, 1])
   \<and> parseWsProtoMsg (Slice [0, 0, 0, 16, 0, 16, 0, 0, 0, 0, 0, 2, 0, 0, 0, 1] [])
     = Return (\<lparr>Version = 0, Operation = wsProtoOpHeartbeat, SequenceID = 1, Body = nil_slice\<rparr>,
               Some (InvalidBodySize 0))"
  by (simp add: writeWsProtoMsg_def binary_Write_def Buffer_Write_def wsProtoRawHeaderSize_16
      BigEndian_PutUint32_def BigEndian_PutUint16_def nil_slice_def len_def wsProtoOpHeartbeat_def
      parseWsProtoMsg_def sliceLH_def sliceL_def bindE_def cap_def
      BigEndian_Uint32_def BigEndian_Uint16_def wsProtoOffsets
      sint_wsProtoMaxPackSize word_sless_alt)

text \<open>
  The same holds of every frame with an empty body: it is written as sixteen bytes,
  which the parser rejects with \<open>invalid body size: 0\<close>, whatever the spare capacity
  of the received buffer.
\<close>

lemma empty_body_rejected:
  assumes "len (Body p) = 0"
  shows "\<exists>bs q. writeWsProtoMsg Buffer_Write [] p = (None, bs) \<and> length bs = 16
           \<and> parseWsProtoMsg (Slice bs sp) = Return (q, Some (InvalidBodySize 0))"
proof -
  have e: "elems (Body p) = []" using assms by (simp add: len_def)
  define bs where "bs = frameBytes 16 16 (Version p) (Operation p) (SequenceID p) []"
  have w: "writeWsProtoMsg Buffer_Write [] p = (None, bs)"
    by (simp add: write_Buffer bs_def len_def e)
  have lb: "length bs = 16"
    by (simp add: bs_def length_frameBytes)
  have "parseWsProtoMsg (Slice bs sp) = validate (Slice bs sp)"
    by (rule parse_validate) (simp add: len_def lb)
  also have "\<dots> = Return (\<lparr>Version = Version p, Operation = Operation p,
       SequenceID = SequenceID p, Body = nil_slice\<rparr>, Some (InvalidBodySize 0))"
    by (simp add: validate_def Let_def bs_def frameBytes_fields length_frameBytes
        wsProtoRawHeaderSize_16 sint_wsProtoMaxPackSize word_sless_alt len_def)
  finally show ?thesis using w lb by simp
qed

text \<open>
  C3. On a buffer of at least sixteen bytes \<open>parseWsProtoMsg\<close> does not panic, and its
  error is the one the specification's ordered validation gives on the same bytes:
  (a) packet length negative or above 2064, (b) buffer shorter than the packet length,
  (c) header length other than 16, (d) packet length minus header length at most 0, each
  carrying the offending value; and no error when none of them holds.
\<close>

theorem parseWsProtoMsg_validation_order:
  assumes "16 \<le> len buf"
  shows "\<exists>p. parseWsProtoMsg buf = Return (p, spec_decode_check (elems buf))"
proof -
  have l: "16 \<le> length (elems buf)" using assms by (simp add: len_def)
  define ps hl where "ps = be32 (elems buf) 0" and "hl = be16 (elems buf) 4"
  define PL HL where "PL = spec_packetLength (elems buf)" and "HL = spec_headerLength (elems buf)"
  have ps: "sint ps = PL" unfolding ps_def PL_def by (rule sint_be32 [OF l])
  have hl: "sint hl = HL" unfolding hl_def HL_def by (rule sint_be16 [OF l])
  have c1: "(ps <s 0 \<or> wsProtoMaxPackSize <s ps) = (PL < 0 \<or> PL > 2064)"
    by (simp add: word_sless_alt ps sint_wsProtoMaxPackSize)
  have c3: "(hl \<noteq> word_of_int wsProtoRawHeaderSize) = (HL \<noteq> 16)"
    using sint_eq_16 [of hl] by (simp add: hl wsProtoRawHeaderSize_16)
  have c4: "sint (ps - scast hl) = PL - 16" if "HL = 16" "0 \<le> PL"
  proof -
    have "hl = 16" using that(1) sint_eq_16 [of hl] hl by simp
    then show ?thesis using sint_sub_16 [of ps] that(2) ps by simp
  qed
  have c5: "\<exists>b. sliceLH buf (sint hl) (sint ps) = Return b"
    if "HL = 16" "16 < PL" "PL \<le> int (length (elems buf))"
    using that by (simp add: sliceLH_def cap_def hl ps)
  have v: "parseWsProtoMsg buf = validate buf" by (rule parse_validate [OF assms])
  consider (a) "PL < 0 \<or> PL > 2064"
    | (b) "\<not> (PL < 0 \<or> PL > 2064)" "int (length (elems buf)) < PL"
    | (c) "\<not> (PL < 0 \<or> PL > 2064)" "\<not> int (length (elems buf)) < PL" "HL \<noteq> 16"
    | (d) "\<not> (PL < 0 \<or> PL > 2064)" "\<not> int (length (elems buf)) < PL" "HL = 16" "PL - 16 \<le> 0"
    | (e) "\<not> (PL < 0 \<or> PL > 2064)" "\<not> int (length (elems buf)) < PL" "HL = 16" "\<not> PL - 16 \<le> 0"
    by blast
  then show ?thesis
  proof cases
    case a
    then show ?thesis
      using c1 unfolding v validate_def spec_decode_check_def Let_def
      by (simp add: ps spec_maxBodySize_def spec_headerSize_def
          flip: ps_def hl_def PL_def HL_def)
  next
    case b
    then show ?thesis
      using c1 unfolding v validate_def spec_decode_check_def Let_def
      by (simp add: ps len_def spec_maxBodySize_def spec_headerSize_def
          flip: ps_def hl_def PL_def HL_def)
  next
    case c
    then show ?thesis
      using c1 c3 unfolding v validate_def spec_decode_check_def Let_def
      by (simp add: ps hl len_def spec_maxBodySize_def spec_headerSize_def
          flip: ps_def hl_def PL_def HL_def)
  next
    case d
    then have "0 \<le> PL" by simp
    then show ?thesis
      using d c1 c3 c4 unfolding v validate_def spec_decode_check_def Let_def
      by (simp add: ps hl len_def spec_maxBodySize_def spec_headerSize_def
          flip: ps_def hl_def PL_def HL_def)
  next
    case e
    then have "0 \<le> PL" by simp
    moreover obtain b where "sliceLH buf (sint hl) (sint ps) = Return b"
      using c5 e by auto
    ultimately show ?thesis
      using e c1 c3 c4 unfolding v validate_def spec_decode_check_def Let_def
      by (simp add: ps hl len_def bindE_def wsProtoRawHeaderSize_16 spec_maxBodySize_def
          spec_headerSize_def flip: ps_def hl_def PL_def HL_def)
  qed
qed

text \<open>
  Witness for C3: a sixteen-byte buffer whose header
  length field is 17, rejected at step (c) with that value.
\<close>

theorem parseWsProtoMsg_validation_order_witness:
  "16 \<le> len (Slice [0, 0, 0, 16, 0, 17, 0, 0, 0, 0, 0, 8, 0, 0, 0, 0] [])
   \<and> spec_decode_check [0, 0, 0, 16, 0, 17, 0, 0, 0, 0, 0, 8, 0, 0, 0, 0]
       = Some (UnsupportedHeaderSize 17)
   \<and> (\<exists>p. parseWsProtoMsg (Slice [0, 0, 0, 16, 0, 17, 0, 0, 0, 0, 0, 8, 0, 0, 0, 0] [])
            = Return (p, Some (UnsupportedHeaderSize 17)))"
proof -
  have h: "16 \<le> len (Slice [0, 0, 0, 16, 0, 17, 0, 0, 0, 0, 0, 8, 0, 0, 0, 0] [])"
    by (simp add: len_def)
  have s: "spec_decode_check [0, 0, 0, 16, 0, 17, 0, 0, 0, 0, 0, 8, 0, 0, 0, 0]
       = Some (UnsupportedHeaderSize 17)"
    by (simp add: spec_decode_check_def spec_packetLength_def spec_headerLength_def be_nat_def
        signed_of_def spec_maxBodySize_def spec_headerSize_def)
  show ?thesis
    using h s parseWsProtoMsg_validation_order [OF h] by simp
qed

text \<open>
  C9. On a buffer of fewer than sixteen bytes \<open>parseWsProtoMsg\<close> panics, whatever the
  capacity, with a slice bound or an index out of range: the five header fields are
  read before any check, and at the latest \<open>buf[12:]\<close> is out of range or too short for
  the 32-bit read.
\<close>

theorem parseWsProtoMsg_short_buffer_panics:
  assumes "len buf < 16"
  shows "\<exists>pn. parseWsProtoMsg buf = Panic pn \<and> outOfRange pn"
  unfolding parseWsProtoMsg_def
  apply (rule bindE_panicsP, erule sliceLH_outOfRange)
  apply (rule bindE_panicsP, erule Uint32_outOfRange)
  apply (rule bindE_panicsP, erule sliceLH_outOfRange)
  apply (rule bindE_panicsP, erule Uint16_outOfRange)
  apply (rule bindE_panicsP, erule sliceLH_outOfRange)
  apply (rule bindE_panicsP, erule Uint16_outOfRange)
  apply (rule bindE_panicsP, erule sliceLH_outOfRange)
  apply (rule bindE_panicsP, erule Uint32_outOfRange)
  apply (rule seq_read_panicsP [OF assms])
  done

text \<open>
  Witness for C9: three bytes with no spare capacity fail at the first slice
  expression, \<open>buf[0:4]\<close>; fourteen bytes in a buffer of capacity 512 fail at the 32-bit
  read of \<open>buf[12:]\<close>.
\<close>

theorem parseWsProtoMsg_short_buffer_panics_witness:
  "len (Slice [0, 0, 0] []) < 16
   \<and> parseWsProtoMsg (Slice [0, 0, 0] []) = Panic (SliceBoundsOutOfRange 0 4 3)
   \<and> len (Slice [0, 0, 0, 18, 0, 16, 0, 0, 0, 0, 0, 5, 0, 0] (replicate 498 0)) < 16
   \<and> parseWsProtoMsg (Slice [0, 0, 0, 18, 0, 16, 0, 0, 0, 0, 0, 5, 0, 0] (replicate 498 0))
       = Panic (IndexOutOfRange 3 2)
   \<and> (\<exists>pn. parseWsProtoMsg (Slice [0, 0, 0] []) = Panic pn \<and> outOfRange pn)"
proof -
  have h: "len (Slice [0, 0, 0] []) < 16" by (simp add: len_def)
  have h': "len (Slice [0, 0, 0, 18, 0, 16, 0, 0, 0, 0, 0, 5, 0, 0] (replicate 498 0)) < 16"
    by (simp add: len_def)
  have p: "parseWsProtoMsg (Slice [0, 0, 0] []) = Panic (SliceBoundsOutOfRange 0 4 3)"
    by (simp add: parseWsProtoMsg_def sliceLH_def bindE_def cap_def wsProtoOffsets)
  have p': "parseWsProtoMsg (Slice [0, 0, 0, 18, 0, 16, 0, 0, 0, 0, 0, 5, 0, 0] (replicate 498 0))
       = Panic (IndexOutOfRange 3 2)"
    by (simp add: parseWsProtoMsg_def sliceLH_def sliceL_def bindE_def cap_def len_def
        BigEndian_Uint32_def BigEndian_Uint16_def wsProtoOffsets)
  show ?thesis
    using h h' p p' parseWsProtoMsg_short_buffer_panics [OF h] by (intro conjI)
qed

section \<open>The streaming connection: handlers, dispatch, close\<close>

lemma connect_sample: "connect sampleTransport sampleConn = Return (None, sampleConnected)"
  by (simp add: connect_def sampleTransport_def sampleConn_def sampleConnected_def sendAuth_def
      createMsg_def writeMsg_def emit_def writeWsProtoMsg_def binary_Write_def sampleAuthFrame_def)

text \<open>
  C4. An AUTH_ACK frame handled in state \<open>websocketClientStateAuth\<close> whose body decodes
  to \<open>code\<close>: the state becomes \<open>websocketClientStateActive\<close> when \<open>code\<close> is 0 and stays
  \<open>websocketClientStateAuth\<close> (so never becomes active) when it is not.
\<close>

theorem handleOpAuth_transition:
  assumes "state c = websocketClientStateAuth"
    and "UnmarshalAuth J (elems (Body msg)) = Inr code"
  shows "state (snd (handleOpAuth J msg c))
           = (if code = 0 then websocketClientStateActive else websocketClientStateAuth)"
  using assms by (simp add: handleOpAuth_def emit_def)

text \<open>
  Witness for C4: the connection after \<open>connect\<close>, with the acknowledgement bodies
  \<open>{"code":0}\<close> and \<open>{"code":1}\<close>.
\<close>

theorem handleOpAuth_transition_witness:
  "state sampleConnected = websocketClientStateAuth
   \<and> UnmarshalAuth sampleJson (elems (Body acceptedAck)) = Inr 0
   \<and> UnmarshalAuth sampleJson (elems (Body rejectedAck)) = Inr 1
   \<and> state (snd (handleOpAuth sampleJson acceptedAck sampleConnected)) = websocketClientStateActive
   \<and> state (snd (handleOpAuth sampleJson rejectedAck sampleConnected)) = websocketClientStateAuth"
proof -
  have s: "state sampleConnected = websocketClientStateAuth"
    by (simp add: sampleConnected_def)
  have a: "UnmarshalAuth sampleJson (elems (Body acceptedAck)) = Inr 0"
    by (simp add: sampleJson_def acceptedAck_def bytesOf_def)
  have r: "UnmarshalAuth sampleJson (elems (Body rejectedAck)) = Inr 1"
    by (simp add: sampleJson_def rejectedAck_def bytesOf_def)
  show ?thesis
    using s a r handleOpAuth_transition [OF s a] handleOpAuth_transition [OF s r] by simp
qed

text \<open>
  C8. A MESSAGE_ACK frame whose \<open>cmd\<close> is not \<open>LIVE_OPEN_PLATFORM_DM\<close>: \<open>handleOpMsg\<close>
  returns no error, calls neither callback, leaves the state as it is, and only logs the
  warning \<open>unsupported cmd\<close>.
\<close>

theorem handleOpMsg_unrecognized_cmd:
  assumes "GetCmd J (elems (Body msg)) \<noteq> CmdLiveOpenPlatformDm"
  shows "handleOpMsg J msg c = (None, emit (Log WarnLevel ''unsupported cmd'' None) c)
       \<and> danmakuCalls (trace (snd (handleOpMsg J msg c))) = danmakuCalls (trace c)
       \<and> closeCalls (trace (snd (handleOpMsg J msg c))) = closeCalls (trace c)
       \<and> state (snd (handleOpMsg J msg c)) = state c"
  using assms by (simp add: handleOpMsg_def emit_def danmakuCalls_def closeCalls_def)

text \<open>Witness for C8: a frame whose \<open>cmd\<close> is \<open>LIVE_OPEN_PLATFORM_GIFT\<close>.\<close>

theorem handleOpMsg_unrecognized_cmd_witness:
  "GetCmd sampleJson (elems (Body giftMsg)) \<noteq> CmdLiveOpenPlatformDm
   \<and> handleOpMsg sampleJson giftMsg sampleConnected
       = (None, emit (Log WarnLevel ''unsupported cmd'' None) sampleConnected)"
proof -
  have h: "GetCmd sampleJson (elems (Body giftMsg)) \<noteq> CmdLiveOpenPlatformDm"
    by (simp add: sampleJson_def giftMsg_def bytesOf_def CmdLiveOpenPlatformDm_def)
  show ?thesis
    using h handleOpMsg_unrecognized_cmd [OF h] by simp
qed

lemma sameLifecycle_refl: "sameLifecycle c c"
  by (simp add: sameLifecycle_def)

lemma sameLifecycle_trans: "sameLifecycle a b \<Longrightarrow> sameLifecycle b c \<Longrightarrow> sameLifecycle a c"
  by (simp add: sameLifecycle_def)

lemma sameLifecycle_emit:
  assumes "\<And>r. e \<noteq> CallOnClose r"
  shows "sameLifecycle c (emit e c)"
  using assms by (cases e) (auto simp: sameLifecycle_def emit_def closeCalls_def)

lemma sameLifecycle_state: "sameLifecycle c (c\<lparr>state := s\<rparr>)"
  by (simp add: sameLifecycle_def)

lemma sameLifecycle_seqID: "sameLifecycle c (c\<lparr>seqID := s\<rparr>)"
  by (simp add: sameLifecycle_def)

lemma runHandler_sameLifecycle: "sameLifecycle c (snd (runHandler J h msg c))"
proof (cases h)
  case HandleOpAuth
  have "sameLifecycle c (emit (Log InfoLevel ''client finish auth'' None)
                           (c\<lparr>state := websocketClientStateActive\<rparr>))"
    by (rule sameLifecycle_trans [OF sameLifecycle_state sameLifecycle_emit]) simp
  then show ?thesis
    using HandleOpAuth by (simp add: handleOpAuth_def sameLifecycle_refl split: sum.splits)
next
  case HandleOpHeartbeat
  then show ?thesis by (simp add: handleOpHeartbeat_def sameLifecycle_emit)
next
  case HandleOpMsg
  then show ?thesis
    by (simp add: handleOpMsg_def Let_def sameLifecycle_emit sameLifecycle_refl split: sum.splits)
qed

lemma writeMsg_sameLifecycle:
  assumes "writeMsg T m c = Return (r, c')"
  shows "sameLifecycle c c'"
  using assms
  by (auto simp: writeMsg_def Let_def sameLifecycle_emit split: if_splits sum.splits)

lemma sendHeartbeat_sameLifecycle:
  assumes "sendHeartbeat T c = Return (r, c')"
  shows "sameLifecycle c c'"
proof (cases "state c = websocketClientStateActive")
  case True
  then have "writeMsg T (fst (createMsg wsProtoOpHeartbeat nil_slice c))
                (snd (createMsg wsProtoOpHeartbeat nil_slice c)) = Return (r, c')"
    using assms by (simp add: sendHeartbeat_def split: prod.splits)
  then have "sameLifecycle (snd (createMsg wsProtoOpHeartbeat nil_slice c)) c'"
    by (rule writeMsg_sameLifecycle)
  moreover have "sameLifecycle c (snd (createMsg wsProtoOpHeartbeat nil_slice c))"
    by (simp add: createMsg_def sameLifecycle_seqID)
  ultimately show ?thesis by (rule sameLifecycle_trans [rotated])
next
  case False
  then show ?thesis using assms by (simp add: sendHeartbeat_def sameLifecycle_refl)
qed

lemma eventTurn_sameLifecycle:
  assumes "eventTurn T J ev c = Return (b, c')"
  shows "sameLifecycle c c'"
proof (cases ev)
  case CtxDone
  then show ?thesis using assms by (auto simp: eventTurn_def sameLifecycle_refl split: if_splits)
next
  case HeartbeatTick
  then obtain r c1 where s: "sendHeartbeat T c = Return (r, c1)"
    and c': "c' = (case r of Some e \<Rightarrow> emit (Log WarnLevel ''heartbeat send fail'' (Some e)) c1
                   | None \<Rightarrow> c1)"
    using assms
    by (auto simp: eventTurn_def split: if_splits exec.splits prod.splits option.splits)
  have "sameLifecycle c1 c'"
    unfolding c' by (cases r) (simp_all add: sameLifecycle_refl sameLifecycle_emit)
  then show ?thesis
    using sendHeartbeat_sameLifecycle [OF s] by (rule sameLifecycle_trans [rotated])
next
  case (Recv mo)
  show ?thesis
  proof (cases mo)
    case None
    then show ?thesis
      using assms Recv by (auto simp: eventTurn_def sameLifecycle_refl split: if_splits)
  next
    case (Some msg)
    show ?thesis
    proof (cases "eventHandler c (Operation msg)")
      case None
      then show ?thesis
        using assms Recv Some
        by (auto simp: eventTurn_def sameLifecycle_emit split: if_splits)
    next
      case (Some h)
      obtain r c1 where rh: "runHandler J h msg c = (r, c1)" by (cases "runHandler J h msg c")
      then have a: "sameLifecycle c c1" using runHandler_sameLifecycle [of c J h msg] by simp
      have "c' = (case r of Some e \<Rightarrow> emit (Log WarnLevel ''handle msg fail'' (Some e)) c1
                   | None \<Rightarrow> c1)"
        using assms Recv \<open>mo = Some msg\<close> Some rh
        by (auto simp: eventTurn_def split: if_splits option.splits)
      then have "sameLifecycle c1 c'"
        by (cases r) (simp_all add: sameLifecycle_refl sameLifecycle_emit)
      with a show ?thesis by (rule sameLifecycle_trans)
    qed
  qed
qed

lemma eventLoop_sameLifecycle:
  assumes "eventLoop T J evs c = Return (st, c')"
  shows "sameLifecycle c c'"
  using assms
proof (induction evs arbitrary: c)
  case Nil
  then show ?case by (auto simp: sameLifecycle_refl split: if_splits)
next
  case (Cons ev evs)
  then obtain b c1 where t: "eventTurn T J ev c = Return (b, c1)"
    by (auto split: exec.splits)
  have a: "sameLifecycle c c1" by (rule eventTurn_sameLifecycle [OF t])
  show ?case
  proof (cases b)
    case True
    then show ?thesis using Cons.prems t a by simp
  next
    case False
    then have "eventLoop T J evs c1 = Return (st, c')" using Cons.prems t by simp
    then have "sameLifecycle c1 c'" by (rule Cons.IH)
    with a show ?thesis by (rule sameLifecycle_trans)
  qed
qed

text \<open>
  C2, as the code has it. An AUTH_ACK frame with a nonzero code, dispatched while the
  connection awaits authentication: the handler's error is logged by the dispatch loop
  as the warning \<open>handle msg fail\<close> and the loop goes on with the state still
  \<open>websocketClientStateAuth\<close>. Whatever the loop processes afterwards, it never calls the
  close callback and never clears the transport, the cancellation function or the
  ticker: the teardown path is not run from the dispatch loop.
\<close>

theorem auth_rejection_only_logged:
  assumes "loopCtx c" and "heartbeatTicker c" and "state c = websocketClientStateAuth"
    and "Operation msg = wsProtoOpAuthReply"
    and "eventHandler c wsProtoOpAuthReply = Some HandleOpAuth"
    and "UnmarshalAuth J (elems (Body msg)) = Inr code" and "code \<noteq> 0"
  shows "eventTurn T J (Recv (Some msg)) c
           = Return (False, emit (Log WarnLevel ''handle msg fail''
                                    (Some (AuthCodeNotZero (sint code)))) c)
       \<and> state (emit (Log WarnLevel ''handle msg fail''
                         (Some (AuthCodeNotZero (sint code)))) c) = websocketClientStateAuth
       \<and> (\<forall>evs st c'. eventLoop T J (Recv (Some msg) # evs) c = Return (st, c') \<longrightarrow>
             closeCalls (trace c') = closeCalls (trace c) \<and> conn c' = conn c
             \<and> loopCancel c' = loopCancel c \<and> heartbeatTicker c' = heartbeatTicker c)"
proof -
  have "eventTurn T J (Recv (Some msg)) c
           = Return (False, emit (Log WarnLevel ''handle msg fail''
                                    (Some (AuthCodeNotZero (sint code)))) c)"
    using assms by (simp add: eventTurn_def handleOpAuth_def)
  moreover have "state (emit (Log WarnLevel ''handle msg fail''
                         (Some (AuthCodeNotZero (sint code)))) c) = websocketClientStateAuth"
    using assms by (simp add: emit_def)
  moreover have "closeCalls (trace c') = closeCalls (trace c) \<and> conn c' = conn c
             \<and> loopCancel c' = loopCancel c \<and> heartbeatTicker c' = heartbeatTicker c"
    if "eventLoop T J (Recv (Some msg) # evs) c = Return (st, c')" for evs st c'
    using eventLoop_sameLifecycle [OF that] by (simp add: sameLifecycle_def)
  ultimately show ?thesis by blast
qed

text \<open>
  Witness for C2: the connection after \<open>connect\<close>, the acknowledgement \<open>{"code":1}\<close> and
  then a heartbeat tick.
\<close>

theorem auth_rejection_only_logged_witness:
  "loopCtx sampleConnected \<and> heartbeatTicker sampleConnected
   \<and> state sampleConnected = websocketClientStateAuth
   \<and> Operation rejectedAck = wsProtoOpAuthReply
   \<and> eventHandler sampleConnected wsProtoOpAuthReply = Some HandleOpAuth
   \<and> UnmarshalAuth sampleJson (elems (Body rejectedAck)) = Inr 1 \<and> (1 :: 64 word) \<noteq> 0
   \<and> eventTurn sampleTransport sampleJson (Recv (Some rejectedAck)) sampleConnected
       = Return (False, emit (Log WarnLevel ''handle msg fail'' (Some (AuthCodeNotZero 1)))
                          sampleConnected)
   \<and> eventLoop sampleTransport sampleJson [Recv (Some rejectedAck), HeartbeatTick] sampleConnected
       = Return (Waiting, emit (Log WarnLevel ''handle msg fail'' (Some (AuthCodeNotZero 1)))
                            sampleConnected)
   \<and> closeCalls (trace (emit (Log WarnLevel ''handle msg fail'' (Some (AuthCodeNotZero 1)))
                            sampleConnected)) = closeCalls (trace sampleConnected)"
proof -
  have h0: "loopCtx sampleConnected" by (simp add: sampleConnected_def)
  have h1: "heartbeatTicker sampleConnected" by (simp add: sampleConnected_def)
  have h2: "state sampleConnected = websocketClientStateAuth" by (simp add: sampleConnected_def)
  have h3: "Operation rejectedAck = wsProtoOpAuthReply" by (simp add: rejectedAck_def)
  have h4: "eventHandler sampleConnected wsProtoOpAuthReply = Some HandleOpAuth"
    by (simp add: sampleConnected_def wsProtoOpAuthReply_def wsProtoOpHeartbeatReply_def
        wsProtoOpSendMsgReply_def)
  have h5: "UnmarshalAuth sampleJson (elems (Body rejectedAck)) = Inr 1"
    by (simp add: sampleJson_def rejectedAck_def bytesOf_def)
  have h6: "(1 :: 64 word) \<noteq> 0" by simp
  note th = auth_rejection_only_logged [OF h0 h1 h2 h3 h4 h5 h6, of sampleTransport]
  have t: "eventTurn sampleTransport sampleJson (Recv (Some rejectedAck)) sampleConnected
       = Return (False, emit (Log WarnLevel ''handle msg fail'' (Some (AuthCodeNotZero 1)))
                          sampleConnected)"
    using th [THEN conjunct1] by simp
  have s: "state (emit (Log WarnLevel ''handle msg fail'' (Some (AuthCodeNotZero 1)))
                          sampleConnected) = websocketClientStateAuth"
    using th [THEN conjunct2, THEN conjunct1] by simp
  have k: "loopCtx (emit (Log WarnLevel ''handle msg fail'' (Some (AuthCodeNotZero 1)))
                          sampleConnected)"
      "heartbeatTicker (emit (Log WarnLevel ''handle msg fail'' (Some (AuthCodeNotZero 1)))
                          sampleConnected)"
    using h0 h1 by (simp_all add: emit_def)
  have tick: "eventTurn sampleTransport sampleJson HeartbeatTick
                (emit (Log WarnLevel ''handle msg fail'' (Some (AuthCodeNotZero 1)))
                          sampleConnected)
       = Return (False, emit (Log WarnLevel ''handle msg fail'' (Some (AuthCodeNotZero 1)))
                          sampleConnected)"
    using s k by (simp add: eventTurn_def sendHeartbeat_def)
  have l: "eventLoop sampleTransport sampleJson [Recv (Some rejectedAck), HeartbeatTick]
             sampleConnected
       = Return (Waiting, emit (Log WarnLevel ''handle msg fail'' (Some (AuthCodeNotZero 1)))
                            sampleConnected)"
    using k by (simp add: t tick)
  have c: "closeCalls (trace (emit (Log WarnLevel ''handle msg fail'' (Some (AuthCodeNotZero 1)))
                            sampleConnected)) = closeCalls (trace sampleConnected)"
    using th [THEN conjunct2, THEN conjunct2, rule_format, OF l] by simp
  show ?thesis
    using h0 h1 h2 h3 h4 h5 h6 t l c by (intro conjI)
qed

text \<open>
  C2 as stated fails: after the dispatch loop has processed the rejected acknowledgement
  \<open>{"code":1}\<close> on the connection that \<open>connect\<close> left awaiting authentication, the
  close callback has been called zero times, not once, and the connection and its
  cancellation function are still there.
\<close>

theorem auth_rejection_counterexample:
  "eventLoop sampleTransport sampleJson [Recv (Some rejectedAck)] sampleConnected
     = Return (Waiting, emit (Log WarnLevel ''handle msg fail'' (Some (AuthCodeNotZero 1)))
                          sampleConnected)
   \<and> closeCalls (trace (emit (Log WarnLevel ''handle msg fail'' (Some (AuthCodeNotZero 1)))
                          sampleConnected)) = []
   \<and> conn (emit (Log WarnLevel ''handle msg fail'' (Some (AuthCodeNotZero 1))) sampleConnected)
   \<and> loopCancel (emit (Log WarnLevel ''handle msg fail'' (Some (AuthCodeNotZero 1)))
                          sampleConnected)"
  by (simp add: eventTurn_def handleOpAuth_def emit_def closeCalls_def sampleConnected_def
      sampleJson_def rejectedAck_def bytesOf_def wsProtoOpAuthReply_def
      wsProtoOpHeartbeatReply_def wsProtoOpSendMsgReply_def)

subsection \<open>Closing a connection whose read loop is running\<close>


lemma Connect_sample:
  "Connect sampleApi sampleTransport ''live-code'' sampleClient
     = Returned (None, sampleClientConnected)"
proof -
  have w: "\<lparr>url = ''wss://broadcast.example/sub'', authBody = ''token'', onDanmaku = True,
            onClose = True, state = websocketClientStateIdle, conn = False, seqID = 0,
            heartbeatTicker = False, loopCtx = False, loopCancel = False,
            eventHandler = Map.empty, trace = []\<rparr> = sampleConn"
    by (simp add: sampleConn_def)
  show ?thesis
    by (simp add: Connect_def callAppStart_def Err_def connectWs_def sampleApi_def
        sampleClient_def sampleClientConnected_def w connect_sample)
qed

text \<open>
  Once a connection is torn down, \<open>Close\<close> returns \<open>nil\<close> and does nothing: the guards on
  the transport, the cancellation function and the ticker make this part of the
  teardown repeatable. The call of the close callback in \<open>internalClose\<close> has no such
  guard.
\<close>

lemma Close_closed: "\<not> conn c \<Longrightarrow> Close T cbReturns c = Finished (None, c)"
  by (simp add: Close_def)

text \<open>
  A close that the transport reports to the read loop, with no caller closing: the read
  loop alone tears the connection down and calls the close callback once, with the
  error of the read.
\<close>

lemma readLoop_closed_by_transport:
  assumes "conn c" and "onClose c"
  shows "\<exists>c'. readLoop True (ReadClosed e # rrs) c = Return (ReadExited, [], c')
           \<and> closeCalls (trace c') = closeCalls (trace c) @ [Some e]
           \<and> state c' = websocketClientStateIdle \<and> \<not> conn c'"
  using assms
  by (simp add: readTurn_def afterRead_def internalClose_def emit_def closeCalls_def Let_def)

text \<open>
  A read that fails without a close status leaves the teardown to the caller: the loop
  finds \<open>c.conn\<close> still set, reads again, and exits at its test once the caller's
  \<open>internalClose\<close> has run. Then the callback is called once, with \<open>nil\<close>.
\<close>

lemma CloseDuringRead_failed_read:
  assumes "conn c" and "onClose c"
  shows "\<exists>r. CloseDuringRead T cbReturns (ReadFailed e) [] c = Return r
           \<and> closeCalls (trace (leftBy r)) = closeCalls (trace c) @ [None]
           \<and> state (leftBy r) = websocketClientStateIdle"
  using assms
  by (cases cbReturns)
     (simp_all add: CloseDuringRead_def afterRead_def internalClose_def emit_def closeCalls_def
       leftBy_def Let_def)

text \<open>
  Every connection that \<open>connect\<close> opened has a read loop, and while the connection is
  open the loop waits in \<open>conn.Read\<close>. When the caller's \<open>conn.Close\<close> ends that read with
  an error carrying a close status, the read loop runs \<open>internalClose(err)\<close> and the
  caller's deferred call runs \<open>internalClose(nil)\<close>: whether the callback returns or not,
  it is called twice, first with the error.
\<close>

lemma CloseDuringRead_calls:
  assumes "conn c" and "onClose c"
  shows "\<exists>r. CloseDuringRead T cbReturns (ReadClosed e) rrs c = Return r
           \<and> closeCalls (trace (leftBy r)) = closeCalls (trace c) @ [Some e, None]
           \<and> state (leftBy r) = websocketClientStateIdle"
  using assms
  by (cases cbReturns)
     (simp_all add: CloseDuringRead_def afterRead_def internalClose_def emit_def closeCalls_def
       leftBy_def Let_def)

text \<open>
  C5 does not hold of the code. The sample connection is the one \<open>connect\<close> opens, held
  by the facade as \<open>Connect\<close> leaves it. One caller-initiated close of it, with the read
  loop's pending read ended by the close status, calls the close callback twice, with
  the close error and with \<open>nil\<close>, and not once with \<open>nil\<close>; and since the callback
  registered by the facade waits for the mutex that the caller of \<open>Close\<close> holds, the
  close never returns: \<open>Disconnect\<close> on the connected facade is a deadlock. If the callback
  could return, the same two calls would be made.
\<close>

theorem Close_notifies_twice_and_blocks:
  "connect sampleTransport sampleConn = Return (None, sampleConnected)
   \<and> Connect sampleApi sampleTransport ''live-code'' sampleClient
       = Returned (None, sampleClientConnected)
   \<and> CloseDuringRead sampleTransport False (ReadClosed sampleCloseError) [] sampleConnected
       = Return (Stuck sampleTornDown)
   \<and> CloseDuringRead sampleTransport True (ReadClosed sampleCloseError) [] sampleConnected
       = Return (Finished (None, sampleTornDown))
   \<and> closeCalls (trace sampleTornDown) = [Some sampleCloseError, None]
   \<and> Disconnect sampleTransport sampleClientConnected = Deadlocked"
proof -
  have r1: "CloseDuringRead sampleTransport False (ReadClosed sampleCloseError) [] sampleConnected
       = Return (Stuck sampleTornDown)"
    by (simp add: CloseDuringRead_def afterRead_def internalClose_def emit_def Let_def
        sampleTornDown_def sampleConnected_def sampleConn_def sampleTransport_def)
  have r2: "CloseDuringRead sampleTransport True (ReadClosed sampleCloseError) [] sampleConnected
       = Return (Finished (None, sampleTornDown))"
    by (simp add: CloseDuringRead_def afterRead_def internalClose_def emit_def Let_def
        sampleTornDown_def sampleConnected_def sampleConn_def sampleTransport_def)
  have calls: "closeCalls (trace sampleTornDown) = [Some sampleCloseError, None]"
    by (simp add: closeCalls_def sampleTornDown_def sampleConnected_def sampleConn_def)
  have d: "Disconnect sampleTransport sampleClientConnected = Deadlocked"
    by (simp add: Disconnect_def Close_def internalClose_def emit_def Let_def
        sampleClientConnected_def sampleClient_def sampleConnected_def sampleConn_def)
  show ?thesis
    by (intro conjI) (rule connect_sample Connect_sample r1 r2 calls d)+
qed

section \<open>Sequence numbers\<close>

lemma framesSinceDial_snoc: "framesSinceDial (tr @ [e]) = frameStep (framesSinceDial tr) e"
  by (simp add: framesSinceDial_def)

lemma framesSinceDial_emit: "framesSinceDial (trace (emit e c)) = frameStep (framesSinceDial (trace c)) e"
  by (simp add: emit_def framesSinceDial_snoc)

lemma seqInv_emit_other:
  assumes "seqInv c" and "frameStep (framesSinceDial (trace c)) e = framesSinceDial (trace c)"
  shows "seqInv (emit e c)"
  using assms by (simp add: seqInv_def framesSinceDial_emit) (simp add: emit_def)

lemma seqInv_state: "seqInv (c\<lparr>state := s\<rparr>) = seqInv c"
  by (simp add: seqInv_def)

lemma frames_extend:
  assumes "map SequenceID fs = map word_of_nat [0..<length fs]"
    and "SequenceID m = word_of_nat (length fs)"
  shows "map SequenceID (fs @ [m]) = map word_of_nat [0..<length (fs @ [m])]"
  using assms by simp

lemma writeMsg_created:
  assumes "seqInv c"
  shows "\<exists>r c'. writeMsg T (fst (createMsg op body c)) (snd (createMsg op body c)) = Return (r, c')
           \<and> seqInv c' \<and> state c' = state c
           \<and> framesSinceDial (trace c')
               = framesSinceDial (trace c) @ [fst (createMsg op body c)]"
proof -
  let ?m = "fst (createMsg op body c)" and ?c1 = "snd (createMsg op body c)"
  have m: "SequenceID ?m = word_of_nat (length (framesSinceDial (trace c)))"
    using assms by (simp add: createMsg_def seqInv_def)
  have inv: "seqInv (emit (WriteMsg ?m r) ?c1)" for r
    using assms frames_extend [OF _ m]
    by (simp add: seqInv_def framesSinceDial_emit frameStep_def)
       (simp add: emit_def createMsg_def)
  have fr: "framesSinceDial (trace (emit (WriteMsg ?m r) ?c1)) = framesSinceDial (trace c) @ [?m]" for r
    by (simp add: framesSinceDial_emit frameStep_def) (simp add: createMsg_def)
  have st: "state (emit (WriteMsg ?m r) ?c1) = state c" for r
    by (simp add: emit_def createMsg_def)
  have cn: "conn ?c1" using assms by (simp add: seqInv_def createMsg_def)
  show ?thesis
    using cn inv fr st by (cases "connWriter T (trace ?c1)") (simp_all add: writeMsg_def Let_def)
qed











lemma tick_active:
  assumes "seqInv c" and "state c = websocketClientStateActive"
  shows "\<exists>c'. eventTurn T J HeartbeatTick c = Return (False, c') \<and> seqInv c'
           \<and> state c' = websocketClientStateActive
           \<and> length (framesSinceDial (trace c')) = Suc (length (framesSinceDial (trace c)))"
proof -
  obtain r c1 where w: "writeMsg T (fst (createMsg wsProtoOpHeartbeat nil_slice c))
        (snd (createMsg wsProtoOpHeartbeat nil_slice c)) = Return (r, c1)"
      "seqInv c1" "state c1 = state c"
      "framesSinceDial (trace c1)
         = framesSinceDial (trace c) @ [fst (createMsg wsProtoOpHeartbeat nil_slice c)]"
    using writeMsg_created [OF assms(1), of T wsProtoOpHeartbeat nil_slice] by blast
  have sh: "sendHeartbeat T c = Return (r, c1)"
    using w(1) assms(2) by (auto simp: sendHeartbeat_def split: prod.splits)
  have tk: "loopCtx c" "heartbeatTicker c" using assms(1) by (simp_all add: seqInv_def)
  show ?thesis
  proof (cases r)
    case None
    then show ?thesis using sh tk w assms(2) by (simp add: eventTurn_def)
  next
    case (Some e)
    let ?c' = "emit (Log WarnLevel ''heartbeat send fail'' (Some e)) c1"
    have "seqInv ?c'" using w(2) by (auto simp: frameStep_def intro!: seqInv_emit_other)
    moreover have "framesSinceDial (trace ?c') = framesSinceDial (trace c1)"
      by (simp add: framesSinceDial_emit frameStep_def)
    moreover have "state ?c' = state c1" by (simp add: emit_def)
    ultimately show ?thesis using Some sh tk w assms(2) by (simp add: eventTurn_def)
  qed
qed

lemma ticks_active:
  assumes "seqInv c" and "state c = websocketClientStateActive"
  shows "\<exists>c'. eventLoop T J (replicate n HeartbeatTick) c = Return (Waiting, c') \<and> seqInv c'
           \<and> length (framesSinceDial (trace c')) = length (framesSinceDial (trace c)) + n"
  using assms
proof (induction n arbitrary: c)
  case 0
  then show ?case by (simp add: seqInv_def)
next
  case (Suc n)
  obtain c1 where t: "eventTurn T J HeartbeatTick c = Return (False, c1)" "seqInv c1"
    "state c1 = websocketClientStateActive"
    "length (framesSinceDial (trace c1)) = Suc (length (framesSinceDial (trace c)))"
    using tick_active [OF Suc.prems] by blast
  obtain c' where "eventLoop T J (replicate n HeartbeatTick) c1 = Return (Waiting, c')" "seqInv c'"
    "length (framesSinceDial (trace c')) = length (framesSinceDial (trace c1)) + n"
    using Suc.IH [OF t(2) t(3)] by blast
  then show ?case using t by simp
qed

lemma seqInv_sampleConnected: "seqInv sampleConnected"
  by (simp add: seqInv_def sampleConnected_def sampleConn_def framesSinceDial_def frameStep_def
      sampleAuthFrame_def)

text \<open>
  The counter is an \<open>int32\<close>, so the bound of \<open>2 ^ 31\<close> frames cannot be dropped: were the
  sample connection ever driven by \<open>2 ^ 31\<close> heartbeat ticks (one every five seconds, some
  340 years), the frame after the one carrying 2147483647 would carry -2147483648.
\<close>

lemma seqID_is_int32:
  "connect sampleTransport sampleConn = Return (None, sampleConnected)
   \<and> map (\<lambda>m. sint (SequenceID m))
        (drop 2147483647
           (framesOfRun (eventLoop sampleTransport sampleJson
              (Recv (Some acceptedAck) # replicate 2147483648 HeartbeatTick) sampleConnected)))
       = [2147483647, - 2147483648]"
proof -
  define ca where "ca = emit (Log InfoLevel ''client finish auth'' None)
                          (sampleConnected\<lparr>state := websocketClientStateActive\<rparr>)"
  define N :: nat where "N = 2147483648"
  have turn: "eventTurn sampleTransport sampleJson (Recv (Some acceptedAck)) sampleConnected
                = Return (False, ca)"
    by (simp add: eventTurn_def handleOpAuth_def ca_def sampleConnected_def sampleConn_def
        sampleJson_def acceptedAck_def bytesOf_def wsProtoOpAuthReply_def
        wsProtoOpHeartbeatReply_def wsProtoOpSendMsgReply_def)
  have inv: "seqInv ca"
    unfolding ca_def using seqInv_sampleConnected
    by (auto simp: seqInv_state frameStep_def intro!: seqInv_emit_other)
  have act: "state ca = websocketClientStateActive"
    by (simp add: ca_def emit_def)
  have len: "length (framesSinceDial (trace ca)) = 1"
    by (simp add: ca_def emit_def sampleConnected_def sampleConn_def framesSinceDial_def
        frameStep_def)
  obtain c' where run: "eventLoop sampleTransport sampleJson (replicate N HeartbeatTick) ca
        = Return (Waiting, c')" "seqInv c'"
      "length (framesSinceDial (trace c')) = length (framesSinceDial (trace ca)) + N"
    using ticks_active [OF inv act] by blast
  have ids: "map SequenceID (framesSinceDial (trace c')) = map word_of_nat [0..<2147483649]"
    using run(2) run(3) len by (simp add: seqInv_def N_def)
  have "framesOfRun (eventLoop sampleTransport sampleJson
              (Recv (Some acceptedAck) # replicate N HeartbeatTick) sampleConnected)
          = framesSinceDial (trace c')"
    by (simp add: turn run(1) framesOfRun_def)
  then have "map (\<lambda>m. sint (SequenceID m))
        (drop 2147483647
           (framesOfRun (eventLoop sampleTransport sampleJson
              (Recv (Some acceptedAck) # replicate N HeartbeatTick) sampleConnected)))
       = map sint (drop 2147483647 (map SequenceID (framesSinceDial (trace c'))))"
    by (simp add: drop_map)
  also have "\<dots> = map sint (map word_of_nat [2147483647..<2147483649] :: 32 word list)"
    by (simp only: ids drop_map drop_upt) simp
  also have "[2147483647..<2147483649] = [2147483647, 2147483648 :: nat]"
    by (simp add: upt_rec)
  also have "map sint (map word_of_nat [2147483647, 2147483648 :: nat] :: 32 word list)
        = [2147483647, - 2147483648]"
    by simp
  finally show ?thesis
    using connect_sample by (simp add: N_def)
qed

section \<open>The facade: connecting with an empty endpoint list\<close>

text \<open>
  C10. When the facade is idle and owns no open connection, and the bootstrap call
  succeeds with code 0 but an empty endpoint list, \<open>Connect\<close> panics with index 0 out of
  range for length 0 instead of returning an error.
\<close>

theorem Connect_empty_endpoint_list_panics:
  assumes "clientState c = clientStateIdle"
    and "case wsClient c of None \<Rightarrow> True | Some old \<Rightarrow> \<not> conn old"
    and "api code (ProjectID c) = Inr rsp" and "Code rsp = 0"
    and "WSSLink (WebsocketInfo (Data rsp)) = []"
  shows "Connect api T code c = Panicked (IndexOutOfRange 0 0)"
  using assms
  by (auto simp: Connect_def callAppStart_def Err_def connectWs_def Close_def
      split: option.splits)

text \<open>Witness for C10: a fresh client and a bootstrap response without endpoints.\<close>

theorem Connect_empty_endpoint_list_panics_witness:
  "clientState sampleClient = clientStateIdle
   \<and> (case wsClient sampleClient of None \<Rightarrow> True | Some old \<Rightarrow> \<not> conn old)
   \<and> sampleApiNoEndpoint ''live-code'' (ProjectID sampleClient)
       = Inr \<lparr>Code = 0, Message = ''0'', RequestID = ''request-1'',
          Data = \<lparr>GameInfo = \<lparr>GameID = ''game-1''\<rparr>,
                   WebsocketInfo = \<lparr>AuthBody = ''token'', WSSLink = []\<rparr>\<rparr>\<rparr>
   \<and> Connect sampleApiNoEndpoint sampleTransport ''live-code'' sampleClient
       = Panicked (IndexOutOfRange 0 0)"
proof -
  have h1: "clientState sampleClient = clientStateIdle"
    by (simp add: sampleClient_def)
  have h2: "case wsClient sampleClient of None \<Rightarrow> True | Some old \<Rightarrow> \<not> conn old"
    by (simp add: sampleClient_def)
  have h3: "sampleApiNoEndpoint ''live-code'' (ProjectID sampleClient)
       = Inr \<lparr>Code = 0, Message = ''0'', RequestID = ''request-1'',
          Data = \<lparr>GameInfo = \<lparr>GameID = ''game-1''\<rparr>,
                   WebsocketInfo = \<lparr>AuthBody = ''token'', WSSLink = []\<rparr>\<rparr>\<rparr>"
    by (simp add: sampleApiNoEndpoint_def)
  show ?thesis
    using h1 h2 h3
      Connect_empty_endpoint_list_panics [where c = sampleClient and api = sampleApiNoEndpoint
        and code = "''live-code''" and T = sampleTransport, OF h1 h2 h3]
    by simp
qed

section \<open>Request signing\<close>

lemma lower_keys: "map strings_ToLower signatureSourceHeaders = spec_signedKeys"
  by code_simp

lemma canonical_keys:
  "map CanonicalMIMEHeaderKey signatureSourceHeaders = map CanonicalMIMEHeaderKey spec_signedKeys"
  by code_simp

lemma canonical_authorization:
  "CanonicalMIMEHeaderKey ''Authorization'' \<notin> set (map CanonicalMIMEHeaderKey spec_signedKeys)"
  by code_simp

lemma sorted_signedKeys: "sorted spec_signedKeys \<and> distinct spec_signedKeys"
  by code_simp

lemma Header_Get_cong:
  assumes "CanonicalMIMEHeaderKey k = CanonicalMIMEHeaderKey k'"
  shows "Header_Get h k = Header_Get h k'"
  by (simp add: Header_Get_def assms)

lemma foldl_signatureLine:
  "foldl (signatureLine h) acc ks
     = acc @ concat (map (\<lambda>k. (strings_ToLower k @ '':'' @ Header_Get h k) @ [CHR 0x0A]) ks)"
  by (induction ks arbitrary: acc) (simp_all add: signatureLine_def)

lemma concat_lines_join:
  assumes "ls \<noteq> []"
  shows "concat (map (\<lambda>l. l @ sep) ls) = spec_join sep ls @ sep"
  using assms by (induction sep ls rule: spec_join.induct) simp_all

lemma signed_lines:
  "map (\<lambda>k. strings_ToLower k @ '':'' @ Header_Get h k) signatureSourceHeaders = spec_signedLines h"
proof -
  have len: "length signatureSourceHeaders = length spec_signedKeys"
    by (simp add: signatureSourceHeaders_def spec_signedKeys_def)
  have "strings_ToLower (signatureSourceHeaders ! i) = spec_signedKeys ! i
        \<and> Header_Get h (signatureSourceHeaders ! i) = Header_Get h (spec_signedKeys ! i)"
    if "i < length signatureSourceHeaders" for i
  proof -
    have "map strings_ToLower signatureSourceHeaders ! i = spec_signedKeys ! i"
      by (simp only: lower_keys)
    moreover have "map CanonicalMIMEHeaderKey signatureSourceHeaders ! i
        = map CanonicalMIMEHeaderKey spec_signedKeys ! i"
      by (simp only: canonical_keys)
    ultimately show ?thesis
      using that len by (auto intro: Header_Get_cong)
  qed
  then show ?thesis
    unfolding spec_signedLines_def using len
    by (intro nth_equalityI) simp_all
qed

lemma GenerateSignature_eq:
  "GenerateSignature K appSecret h = Return (spec_signature K appSecret h)"
proof -
  define s where "s = foldl (signatureLine h) [] signatureSourceHeaders"
  have ne: "spec_signedLines h \<noteq> []"
    by (simp add: spec_signedLines_def spec_signedKeys_def)
  have "s = concat (map (\<lambda>l. l @ [CHR 0x0A])
                 (map (\<lambda>k. strings_ToLower k @ '':'' @ Header_Get h k) signatureSourceHeaders))"
    by (simp add: s_def foldl_signatureLine comp_def)
  then have s: "s = spec_join [CHR 0x0A] (spec_signedLines h) @ [CHR 0x0A]"
    by (simp only: signed_lines concat_lines_join [OF ne])
  then have "length s \<noteq> 0" "take (length s - 1) s = spec_join [CHR 0x0A] (spec_signedLines h)"
    by simp_all
  then show ?thesis
    unfolding GenerateSignature_def Let_def s_def [symmetric]
    by (simp add: spec_signature_def)
qed

lemma Header_Get_Set_same: "Header_Get (Header_Set h k v) k = v"
  by (simp add: Header_Get_def Header_Set_def)

lemma spec_signature_Set_Authorization:
  "spec_signature K secret (Header_Set h ''Authorization'' v) = spec_signature K secret h"
proof -
  have "Header_Get (Header_Set h ''Authorization'' v) k = Header_Get h k"
    if "k \<in> set spec_signedKeys" for k
  proof -
    have "CanonicalMIMEHeaderKey k \<noteq> CanonicalMIMEHeaderKey ''Authorization''"
      using that canonical_authorization by (metis imageI set_map)
    then show ?thesis by (simp add: Header_Get_def Header_Set_def)
  qed
  then have "spec_signedLines (Header_Set h ''Authorization'' v) = spec_signedLines h"
    by (simp add: spec_signedLines_def)
  then show ?thesis by (simp add: spec_signature_def)
qed

text \<open>
  C7. For every secret and header set, \<open>GenerateSignature\<close> returns (without panic)
  the hex encoding of the HMAC-SHA256, keyed by the secret, of the six lines
  \<open>key:value\<close> joined by newlines with none at the end, the keys being the six
  lower-case header names in alphabetical order; and a request that \<open>RoundTrip\<close> hands
  to the underlying transport carries this value, for its own headers, as
  \<open>Authorization\<close>.
\<close>

theorem GenerateSignature_Authorization:
  "GenerateSignature K appSecret h = Return (spec_signature K appSecret h)
   \<and> sorted spec_signedKeys \<and> distinct spec_signedKeys
   \<and> (RoundTrip K unixNow randIntn t r = Return (Inr r') \<longrightarrow>
        Header_Get (Header r') ''Authorization''
          = spec_signature K (ApiTransport.AppSecret t) (Header r'))"
proof -
  have "Header_Get (Header r') ''Authorization''
          = spec_signature K (ApiTransport.AppSecret t) (Header r')"
    if "RoundTrip K unixNow randIntn t r = Return (Inr r')"
    using that
    by (auto simp: RoundTrip_def Let_def GenerateSignature_eq bindE_def Header_Get_Set_same
        spec_signature_Set_Authorization split: if_splits option.splits sum.splits)
  then show ?thesis
    using GenerateSignature_eq sorted_signedKeys by blast
qed

text \<open>
  Witness for C7: the sample POST request with an empty body, stamped at time
  1700000000 with random number 42.
\<close>

theorem GenerateSignature_Authorization_witness:
  "RoundTrip sampleCrypto 1700000000 42 sampleApiTransport sampleRequest
     = Return (Inr (sampleRequest\<lparr>Header :=
         Header_Set sampleSigned ''Authorization''
           (spec_signature sampleCrypto ''secret'' sampleSigned)\<rparr>))
   \<and> Header_Get (Header (sampleRequest\<lparr>Header :=
         Header_Set sampleSigned ''Authorization''
           (spec_signature sampleCrypto ''secret'' sampleSigned)\<rparr>)) ''Authorization''
       = spec_signature sampleCrypto ''secret'' sampleSigned
   \<and> GenerateSignature sampleCrypto ''secret'' sampleSigned
       = Return (spec_signature sampleCrypto ''secret'' sampleSigned)"
proof -
  let ?R = "sampleRequest\<lparr>Header :=
         Header_Set sampleSigned ''Authorization''
           (spec_signature sampleCrypto ''secret'' sampleSigned)\<rparr>"
  note th = GenerateSignature_Authorization [of sampleCrypto "''secret''" sampleSigned
      1700000000 42 sampleApiTransport sampleRequest ?R]
  have g: "GenerateSignature sampleCrypto ''secret'' sampleSigned
       = Return (spec_signature sampleCrypto ''secret'' sampleSigned)"
    using th by (rule conjunct1)
  have e: "RoundTrip sampleCrypto 1700000000 42 sampleApiTransport sampleRequest = Return (Inr ?R)"
    by (simp add: RoundTrip_def Let_def sampleRequest_def sampleApiTransport_def sampleSigned_def
        bindE_def g [unfolded sampleSigned_def])
  have a: "Header_Get (Header ?R) ''Authorization''
       = spec_signature sampleCrypto (ApiTransport.AppSecret sampleApiTransport) (Header ?R)"
    using th e by blast
  have "spec_signature sampleCrypto (ApiTransport.AppSecret sampleApiTransport) (Header ?R)
       = spec_signature sampleCrypto ''secret'' sampleSigned"
    by (simp add: sampleApiTransport_def spec_signature_Set_Authorization)
  then show ?thesis using e a g by simp
qed

end
